theory Spec2Isabelle
  imports Complex_Main "HOL-Library.Sublist"
begin

section \<open>Exceptions, log records and the program monad\<close>

text \<open>
  The Python exception classes that the handlers of \<^verbatim>\<open>sync_manager.py\<close> tell apart.
  Each value carries \<^verbatim>\<open>str(e)\<close>. \<^verbatim>\<open>git.exc.BadName\<close> is what GitPython raises for a
  revision name that does not resolve; the handlers of initialization name it next to
  \<^verbatim>\<open>ValueError\<close>. \<^verbatim>\<open>TypeError\<close> is what Python raises for an operator applied to
  values of the wrong types, and GitPython for the branch of a detached HEAD; every
  other subclass of \<^verbatim>\<open>Exception\<close> is \<open>OtherException\<close>.
\<close>

datatype exn =
    GitCommandError string
  | BadName string
  | ValueError string
  | TypeError string
  | OtherException string

fun str :: "exn \<Rightarrow> string" where
  "str (GitCommandError m) = m"
| "str (BadName m) = m"
| "str (ValueError m) = m"
| "str (TypeError m) = m"
| "str (OtherException m) = m"

text \<open>\<^verbatim>\<open>except git.exc.GitCommandError\<close>\<close>

fun is_GitCommandError :: "exn \<Rightarrow> bool" where
  "is_GitCommandError (GitCommandError m) = True"
| "is_GitCommandError e = False"

text \<open>\<^verbatim>\<open>except (ValueError, git.exc.BadName)\<close>\<close>

fun is_ValueError :: "exn \<Rightarrow> bool" where
  "is_ValueError (ValueError m) = True"
| "is_ValueError (BadName m) = True"
| "is_ValueError e = False"

text \<open>\<^verbatim>\<open>except Exception\<close>\<close>

definition is_Exception :: "exn \<Rightarrow> bool" where
  "is_Exception e = True"

datatype level = DEBUG | INFO | WARNING | ERROR

text \<open>
  A statement of the source is a function from the state to an outcome and the new state:
  \<open>Inr v\<close> when it returns \<open>v\<close>, \<open>Inl e\<close> when it raises \<open>e\<close>.
\<close>

type_synonym ('s, 'a) prog = "'s \<Rightarrow> (exn + 'a) \<times> 's"

definition ret :: "'a \<Rightarrow> ('s, 'a) prog" where
  "ret v s = (Inr v, s)"

definition raise :: "exn \<Rightarrow> ('s, 'a) prog" where
  "raise e s = (Inl e, s)"

definition bnd :: "('s, 'a) prog \<Rightarrow> ('a \<Rightarrow> ('s, 'b) prog) \<Rightarrow> ('s, 'b) prog" where
  "bnd m f s = (case m s of (Inl e, s') \<Rightarrow> (Inl e, s') | (Inr v, s') \<Rightarrow> f v s')"

text \<open>\<^verbatim>\<open>try: m  except C as e: h(e)\<close>, where \<open>catches\<close> decides membership in \<^verbatim>\<open>C\<close>.\<close>

definition try_except ::
  "('s, 'a) prog \<Rightarrow> (exn \<Rightarrow> bool) \<Rightarrow> (exn \<Rightarrow> ('s, 'a) prog) \<Rightarrow> ('s, 'a) prog" where
  "try_except m catches h s =
     (case m s of
        (Inl e, s') \<Rightarrow> if catches e then h e s' else (Inl e, s')
      | (Inr v, s') \<Rightarrow> (Inr v, s'))"

text \<open>\<^verbatim>\<open>try: m  finally: fin\<close>\<close>

definition try_finally :: "('s, 'a) prog \<Rightarrow> ('s, unit) prog \<Rightarrow> ('s, 'a) prog" where
  "try_finally m fin s =
     (case m s of (r, s') \<Rightarrow>
        (case fin s' of (Inl e, s'') \<Rightarrow> (Inl e, s'') | (Inr u, s'') \<Rightarrow> (r, s'')))"

section \<open>The repository adapter\<close>

text \<open>
  Every call that \<^verbatim>\<open>SyncPair\<close> makes on GitPython or on the file system. The adapter
  is a parameter: each operation maps the state of the outside world \<open>'r\<close> to an outcome
  and a new state of the world, and may raise.
\<close>

datatype call =
    Mkdir string
  | GitDirExists string
  | RepoInit string
  | RepoOpen string
  | HasRemote string
  | CreateRemote string string
  | SetUrl string
  | FolderNonEmpty string
  | HeadCommit
  | HeadIsValid
  | IterCommits
  | HeadReset string bool
  | IsDirty
  | ActiveBranch
  | Checkout string
  | CheckoutNew string
  | Pull string string "string list"
  | MergeAbort
  | ResetHard string
  | IndexAdd string
  | IndexDiff string
  | IndexCommit string
  | RemoteRef string
  | Push string

record 'r adapter =
  mkdir :: "string \<Rightarrow> 'r \<Rightarrow> (exn + unit) \<times> 'r"
  git_dir_exists :: "string \<Rightarrow> 'r \<Rightarrow> (exn + bool) \<times> 'r"
  repo_init :: "string \<Rightarrow> 'r \<Rightarrow> (exn + unit) \<times> 'r"
  repo_open :: "string \<Rightarrow> 'r \<Rightarrow> (exn + unit) \<times> 'r"
  has_remote :: "string \<Rightarrow> 'r \<Rightarrow> (exn + bool) \<times> 'r"
  create_remote :: "string \<Rightarrow> string \<Rightarrow> 'r \<Rightarrow> (exn + unit) \<times> 'r"
  set_url :: "string \<Rightarrow> 'r \<Rightarrow> (exn + unit) \<times> 'r"
  folder_non_empty :: "string \<Rightarrow> 'r \<Rightarrow> (exn + bool) \<times> 'r"
  head_commit :: "'r \<Rightarrow> (exn + string) \<times> 'r"
  head_is_valid :: "'r \<Rightarrow> (exn + bool) \<times> 'r"
  iter_commits :: "'r \<Rightarrow> (exn + string list) \<times> 'r"
  head_reset :: "string \<Rightarrow> bool \<Rightarrow> 'r \<Rightarrow> (exn + unit) \<times> 'r"
  is_dirty :: "'r \<Rightarrow> (exn + bool) \<times> 'r"
  active_branch :: "'r \<Rightarrow> (exn + string) \<times> 'r"
  git_checkout :: "string \<Rightarrow> 'r \<Rightarrow> (exn + unit) \<times> 'r"
  git_checkout_b :: "string \<Rightarrow> 'r \<Rightarrow> (exn + unit) \<times> 'r"
  git_pull :: "string \<Rightarrow> string \<Rightarrow> string list \<Rightarrow> 'r \<Rightarrow> (exn + unit) \<times> 'r"
  git_merge_abort :: "'r \<Rightarrow> (exn + unit) \<times> 'r"
  git_reset_hard :: "string \<Rightarrow> 'r \<Rightarrow> (exn + unit) \<times> 'r"
  index_add :: "string \<Rightarrow> 'r \<Rightarrow> (exn + unit) \<times> 'r"
  index_diff :: "string \<Rightarrow> 'r \<Rightarrow> (exn + string list) \<times> 'r"
  index_commit :: "string \<Rightarrow> 'r \<Rightarrow> (exn + unit) \<times> 'r"
  remote_ref :: "string \<Rightarrow> 'r \<Rightarrow> (exn + string option) \<times> 'r"
  remote_push :: "string \<Rightarrow> 'r \<Rightarrow> (exn + unit) \<times> 'r"
  format_commit_message :: "string \<Rightarrow> 'r \<Rightarrow> (exn + string) \<times> 'r"
  str_lower :: "string \<Rightarrow> string"

text \<open>
  Notes on single operations.
  \<^item> \<open>head_commit\<close> is \<^verbatim>\<open>repo.head.commit\<close> (read for its hexsha where one is used);
    it raises \<open>ValueError\<close> or \<open>BadName\<close> when HEAD does not resolve.
  \<^item> \<open>is_dirty\<close> is \<^verbatim>\<open>repo.is_dirty()\<close> called without arguments: GitPython's
    defaults look at the index and the working tree of tracked files and leave
    untracked files out.
  \<^item> \<open>remote_ref b\<close> is
    \<^verbatim>\<open>origin.refs[b].commit.hexsha if b in origin.refs else None\<close>.
  \<^item> \<open>format_commit_message t\<close> is
    \<^verbatim>\<open>t.format(timestamp=datetime.now().strftime("%Y-%m-%d %H:%M:%S"))\<close>: it reads the clock
    and is library code, not a repository call, so it leaves no entry in \<open>calls\<close>.
  \<^item> \<open>str_lower\<close> is Python's \<^verbatim>\<open>str.lower()\<close>. It follows the Unicode tables (the
    Kelvin sign U+212A becomes the letter k), which are not part of this repository, so
    it is a parameter too. Texts are the UTF-8 bytes of the Python strings; a text of
    ASCII letters occurs in a Python string exactly where its bytes occur in the bytes
    of the string, so \<^verbatim>\<open>x in y\<close> on such texts is \<open>sublist x y\<close>.
\<close>

section \<open>The sync pair\<close>

text \<open>
  The attributes that \<^verbatim>\<open>SyncPair.__init__\<close> assigns once from the configuration and
  that no method changes afterwards.
\<close>

text \<open>
  \<^verbatim>\<open>autocommit_time\<close> is whatever the configuration holds under that key: a number, or
  the \<^verbatim>\<open>None\<close> of a key without a value, or a string. The other attributes are
  taken as strings.
\<close>

datatype pyval = Num real | Null | Str string

record pair_attrs =
  name :: string
  local_folder :: string
  github_repo :: string
  github_token :: string
  autocommit_time :: pyval
  branch :: string
  commit_message_template :: string
  ignore_patterns :: "string list"

text \<open>
  The mutable part of a \<^verbatim>\<open>SyncPair\<close>: the world behind \<^verbatim>\<open>self.repo\<close>,
  \<^verbatim>\<open>self.last_sync_time\<close> and \<^verbatim>\<open>self.sync_lock\<close> (\<open>True\<close> when held), with two
  observation fields: the adapter calls made so far and the records given to the logger.
  Times are seconds as real numbers.
\<close>

record 'r sync_pair =
  repo :: 'r
  last_sync_time :: real
  sync_lock :: bool
  calls :: "call list"
  logs :: "(level \<times> string) list"

definition adapter_call :: "call \<Rightarrow> ('r \<Rightarrow> (exn + 'a) \<times> 'r) \<Rightarrow> ('r sync_pair, 'a) prog" where
  "adapter_call c f s =
     (case f (repo s) of (res, r') \<Rightarrow> (res, s\<lparr>repo := r', calls := calls s @ [c]\<rparr>))"

definition library_call :: "('r \<Rightarrow> (exn + 'a) \<times> 'r) \<Rightarrow> ('r sync_pair, 'a) prog" where
  "library_call f s = (case f (repo s) of (res, r') \<Rightarrow> (res, s\<lparr>repo := r'\<rparr>))"

definition logger :: "level \<Rightarrow> string \<Rightarrow> ('r sync_pair, unit) prog" where
  "logger lv msg s = (Inr (), s\<lparr>logs := logs s @ [(lv, msg)]\<rparr>)"

subsection \<open>\<^verbatim>\<open>_commit_and_push\<close>\<close>

definition commit_and_push :: "'r adapter \<Rightarrow> pair_attrs \<Rightarrow> ('r sync_pair, bool) prog" where
  "commit_and_push ad cfg =
     bnd (adapter_call (IndexAdd ''*'') (index_add ad ''*'')) (\<lambda>_.
     bnd (adapter_call (IndexDiff ''HEAD'') (index_diff ad ''HEAD'')) (\<lambda>d.
     bnd (if d \<noteq> [] then
            bnd (library_call (format_commit_message ad (commit_message_template cfg))) (\<lambda>commit_message.
            bnd (adapter_call (IndexCommit commit_message) (index_commit ad commit_message)) (\<lambda>_.
            bnd (logger INFO (''Committed changes for '' @ name cfg @ '': '' @ commit_message)) (\<lambda>_.
            ret True)))
          else ret False) (\<lambda>committed.
     bnd (adapter_call (RemoteRef (branch cfg)) (remote_ref ad (branch cfg))) (\<lambda>old_remote_head.
     bnd (adapter_call (Push (branch cfg)) (remote_push ad (branch cfg))) (\<lambda>_.
     bnd (adapter_call (RemoteRef (branch cfg)) (remote_ref ad (branch cfg))) (\<lambda>new_remote_head.
     bnd (if old_remote_head \<noteq> new_remote_head then
            bnd (logger INFO (''Pushed new commits for '' @ name cfg)) (\<lambda>_. ret True)
          else ret False) (\<lambda>pushed.
     ret (committed \<or> pushed))))))))"

subsection \<open>\<^verbatim>\<open>_pull_changes\<close>\<close>

definition pull_options :: "string list" where
  "pull_options = [''--no-rebase'', ''--strategy-option=theirs'']"

definition pull_origin :: "'r adapter \<Rightarrow> pair_attrs \<Rightarrow> ('r sync_pair, unit) prog" where
  "pull_origin ad cfg =
     adapter_call (Pull ''origin'' (branch cfg) pull_options)
       (git_pull ad ''origin'' (branch cfg) pull_options)"

definition reset_to_remote :: "'r adapter \<Rightarrow> pair_attrs \<Rightarrow> ('r sync_pair, unit) prog" where
  "reset_to_remote ad cfg =
     adapter_call (ResetHard (''origin/'' @ branch cfg))
       (git_reset_hard ad (''origin/'' @ branch cfg))"

text \<open>\<^verbatim>\<open>self.repo.head.commit.hexsha if self.repo.head.is_valid() else None\<close>\<close>

definition head_hexsha :: "'r adapter \<Rightarrow> ('r sync_pair, string option) prog" where
  "head_hexsha ad =
     bnd (adapter_call HeadIsValid (head_is_valid ad)) (\<lambda>valid.
     if valid then bnd (adapter_call HeadCommit (head_commit ad)) (\<lambda>h. ret (Some h))
     else ret None)"

text \<open>
  The body of the \<^verbatim>\<open>try\<close> of \<^verbatim>\<open>_pull_changes\<close>: the branch check, the pull and
  the comparison of HEAD before and after (lines 469 to 482), and in front of them the
  commit of a dirty working tree (lines 466 to 468).
\<close>

definition pull_branch :: "'r adapter \<Rightarrow> pair_attrs \<Rightarrow> ('r sync_pair, bool) prog" where
  "pull_branch ad cfg =
     bnd (adapter_call ActiveBranch (active_branch ad)) (\<lambda>current_branch.
     bnd (if current_branch \<noteq> branch cfg
          then adapter_call (Checkout (branch cfg)) (git_checkout ad (branch cfg))
          else ret ()) (\<lambda>_.
     bnd (head_hexsha ad) (\<lambda>old_head.
     bnd (pull_origin ad cfg) (\<lambda>_.
     bnd (head_hexsha ad) (\<lambda>new_head.
     if old_head \<noteq> new_head then
       bnd (logger INFO (''Pulled new changes for '' @ name cfg @ '' (HEAD changed)'')) (\<lambda>_.
       ret True)
     else ret False)))))"

definition pull_try :: "'r adapter \<Rightarrow> pair_attrs \<Rightarrow> ('r sync_pair, bool) prog" where
  "pull_try ad cfg =
     bnd (adapter_call IsDirty (is_dirty ad)) (\<lambda>dirty.
     bnd (if dirty then bnd (commit_and_push ad cfg) (\<lambda>_. ret ()) else ret ()) (\<lambda>_.
     pull_branch ad cfg))"

text \<open>
  The handler \<^verbatim>\<open>except git.exc.GitCommandError as e\<close>: after the warning of line 484,
  one of three recoveries is chosen by the text of the error (lines 486 to 519). The
  statements inside the \<^verbatim>\<open>try\<close> of each recovery come first: lines 494 to 497, lines
  503 to 508 and lines 514 to 516. Each returns \<^verbatim>\<open>True\<close> from inside its \<^verbatim>\<open>try\<close>; the
  handler of a recovery logs an error and falls through to the \<^verbatim>\<open>return False\<close> of
  line 519.
\<close>

definition recover_conflict :: "'r adapter \<Rightarrow> pair_attrs \<Rightarrow> ('r sync_pair, bool) prog" where
  "recover_conflict ad cfg =
     bnd (reset_to_remote ad cfg) (\<lambda>_.
     bnd (pull_origin ad cfg) (\<lambda>_.
     bnd (logger INFO (''Successfully resolved conflicts for '' @ name cfg)) (\<lambda>_.
     ret True)))"

definition recover_untracked :: "'r adapter \<Rightarrow> pair_attrs \<Rightarrow> ('r sync_pair, bool) prog" where
  "recover_untracked ad cfg =
     bnd (adapter_call (IndexAdd ''*'') (index_add ad ''*'')) (\<lambda>_.
     bnd (adapter_call (IndexCommit ''Add untracked files'')
            (index_commit ad ''Add untracked files'')) (\<lambda>_.
     bnd (pull_origin ad cfg) (\<lambda>_.
     bnd (logger INFO (''Successfully resolved untracked files for '' @ name cfg)) (\<lambda>_.
     ret True))))"

definition recover_other :: "'r adapter \<Rightarrow> pair_attrs \<Rightarrow> ('r sync_pair, bool) prog" where
  "recover_other ad cfg =
     bnd (reset_to_remote ad cfg) (\<lambda>_.
     bnd (logger INFO (''Reset '' @ name cfg @ '' to remote state'')) (\<lambda>_.
     ret True))"

definition pull_recover :: "'r adapter \<Rightarrow> pair_attrs \<Rightarrow> exn \<Rightarrow> ('r sync_pair, bool) prog" where
  "pull_recover ad cfg e =
     (if sublist ''merge conflict'' (str_lower ad (str e)) then
       bnd (try_except (adapter_call MergeAbort (git_merge_abort ad))
              is_GitCommandError (\<lambda>_. ret ())) (\<lambda>_.
       try_except (recover_conflict ad cfg) is_GitCommandError
         (\<lambda>reset_error.
          bnd (logger ERROR (''Failed to resolve conflicts for '' @ name cfg @ '': ''
                 @ str reset_error)) (\<lambda>_.
          ret False)))
     else if sublist ''untracked working tree files'' (str_lower ad (str e)) then
       try_except (recover_untracked ad cfg) is_GitCommandError
         (\<lambda>add_error.
          bnd (logger ERROR (''Failed to resolve untracked files for '' @ name cfg @ '': ''
                 @ str add_error)) (\<lambda>_.
          ret False))
     else
       try_except (recover_other ad cfg) is_GitCommandError
         (\<lambda>_.
          bnd (logger ERROR (''Failed to reset '' @ name cfg @ '' to remote state'')) (\<lambda>_.
          ret False)))"

definition pull_except :: "'r adapter \<Rightarrow> pair_attrs \<Rightarrow> exn \<Rightarrow> ('r sync_pair, bool) prog" where
  "pull_except ad cfg e =
     bnd (logger WARNING (''Pull failed for '' @ name cfg @ '': '' @ str e)) (\<lambda>_.
     pull_recover ad cfg e)"

definition pull_changes :: "'r adapter \<Rightarrow> pair_attrs \<Rightarrow> ('r sync_pair, bool) prog" where
  "pull_changes ad cfg = try_except (pull_try ad cfg) is_GitCommandError (pull_except ad cfg)"

subsection \<open>\<^verbatim>\<open>sync\<close>\<close>

text \<open>\<^verbatim>\<open>self.sync_lock.acquire(blocking=False)\<close> and \<^verbatim>\<open>self.sync_lock.release()\<close>\<close>

definition acquire_nonblocking :: "('r sync_pair, bool) prog" where
  "acquire_nonblocking s =
     (if sync_lock s then (Inr False, s) else (Inr True, s\<lparr>sync_lock := True\<rparr>))"

definition release :: "('r sync_pair, unit) prog" where
  "release s = (Inr (), s\<lparr>sync_lock := False\<rparr>)"

text \<open>
  The statements inside the inner \<^verbatim>\<open>try\<close> of \<^verbatim>\<open>sync\<close> (lines 445 to 452), and
  the \<^verbatim>\<open>try ... except Exception\<close> around them (lines 443 to 454).
\<close>

definition sync_steps :: "'r adapter \<Rightarrow> pair_attrs \<Rightarrow> real \<Rightarrow> ('r sync_pair, unit) prog" where
  "sync_steps ad cfg current_time =
     bnd (pull_changes ad cfg) (\<lambda>pulled.
     bnd (if \<not> pulled then logger INFO (''No new changes pulled for '' @ name cfg)
          else ret ()) (\<lambda>_.
     bnd (commit_and_push ad cfg) (\<lambda>committed_and_pushed.
     bnd (if \<not> committed_and_pushed
          then logger INFO (''No local changes to commit or push for '' @ name cfg)
          else ret ()) (\<lambda>_.
     (\<lambda>s. (Inr (), s\<lparr>last_sync_time := current_time\<rparr>))))))"

definition sync_cycle :: "'r adapter \<Rightarrow> pair_attrs \<Rightarrow> real \<Rightarrow> ('r sync_pair, unit) prog" where
  "sync_cycle ad cfg current_time =
     try_except (sync_steps ad cfg current_time) is_Exception
       (\<lambda>e. logger ERROR (''Sync error for '' @ name cfg @ '': '' @ str e))"

text \<open>
  The comparison of line 440, \<^verbatim>\<open>current_time - self.last_sync_time < self.autocommit_time\<close>,
  with the difference already taken: between a float and a number it is the order of the
  numbers; between a float and \<^verbatim>\<open>None\<close> or a string Python raises \<^verbatim>\<open>TypeError\<close>
  (the text of the error is given without its quotation marks).
\<close>

definition elapsed_less :: "real \<Rightarrow> pyval \<Rightarrow> exn + bool" where
  "elapsed_less elapsed v =
     (case v of
        Num a \<Rightarrow> Inr (elapsed < a)
      | Null \<Rightarrow> Inl (TypeError ''< not supported between instances of float and NoneType'')
      | Str m \<Rightarrow> Inl (TypeError ''< not supported between instances of float and str''))"

text \<open>
  The body of the outer \<^verbatim>\<open>try\<close> (lines 437 to 454); \<open>current_time\<close> is what
  \<^verbatim>\<open>time.time()\<close> returns. The comparison is outside the inner \<^verbatim>\<open>try\<close>, so its
  \<^verbatim>\<open>TypeError\<close> is not caught there.
\<close>

definition sync_guarded :: "'r adapter \<Rightarrow> pair_attrs \<Rightarrow> real \<Rightarrow> ('r sync_pair, unit) prog" where
  "sync_guarded ad cfg current_time =
     bnd (\<lambda>s. (elapsed_less (current_time - last_sync_time s) (autocommit_time cfg), s)) (\<lambda>skip.
     if skip then ret () else sync_cycle ad cfg current_time)"

text \<open>
  \<^verbatim>\<open>sync\<close> is executed by several threads, so it is given as the sequence of its
  indivisible parts: the \<^verbatim>\<open>acquire\<close> of line 433 with the early return of line 434,
  the statements inside the outer \<^verbatim>\<open>try\<close> (lines 436 to 454), and the \<^verbatim>\<open>release\<close>
  of the \<^verbatim>\<open>finally\<close> clause (line 456), which runs however the \<^verbatim>\<open>try\<close> ended and
  after which the outcome of the \<^verbatim>\<open>try\<close> is the outcome of the call. A thread is
  either finished with an outcome or about to do a labelled part, which gives the new
  state and the rest of the thread.
\<close>

datatype label = Acquire | Try | Release

datatype ('s, 'a) thread = Return 'a | Atomic label "'s \<Rightarrow> 's \<times> ('s, 'a) thread"

text \<open>A thread run on its own, with no other thread in between.\<close>

primrec run :: "('s, 'a) thread \<Rightarrow> 's \<Rightarrow> 'a \<times> 's" where
  "run (Return r) = (\<lambda>s. (r, s))"
| "run (Atomic l f) = (\<lambda>s. case map_prod id run (f s) of (s', rest) \<Rightarrow> rest s')"

definition release_thread :: "exn + unit \<Rightarrow> ('r sync_pair, exn + unit) thread" where
  "release_thread res =
     Atomic Release (\<lambda>s. case release s of
                            (Inl e, s') \<Rightarrow> (s', Return (Inl e))
                          | (Inr u, s') \<Rightarrow> (s', Return res))"

definition try_thread ::
  "'r adapter \<Rightarrow> pair_attrs \<Rightarrow> real \<Rightarrow> ('r sync_pair, exn + unit) thread" where
  "try_thread ad cfg current_time =
     Atomic Try (\<lambda>s. case sync_guarded ad cfg current_time s of
                        (res, s') \<Rightarrow> (s', release_thread res))"

definition sync_thread ::
  "'r adapter \<Rightarrow> pair_attrs \<Rightarrow> real \<Rightarrow> ('r sync_pair, exn + unit) thread" where
  "sync_thread ad cfg current_time =
     Atomic Acquire (\<lambda>s. case acquire_nonblocking s of
                            (Inl e, s') \<Rightarrow> (s', Return (Inl e))
                          | (Inr acquired, s') \<Rightarrow>
                              (s', if \<not> acquired then Return (Inr ())
                                   else try_thread ad cfg current_time))"

text \<open>A call of \<^verbatim>\<open>sync\<close> that no other thread interrupts.\<close>

definition sync :: "'r adapter \<Rightarrow> pair_attrs \<Rightarrow> real \<Rightarrow> ('r sync_pair, unit) prog" where
  "sync ad cfg current_time = run (sync_thread ad cfg current_time)"

subsection \<open>\<^verbatim>\<open>__init__\<close>, \<^verbatim>\<open>_initialize_git\<close> and \<^verbatim>\<open>_ensure_valid_repository\<close>\<close>

text \<open>
  The dictionary given to \<^verbatim>\<open>SyncPair.__init__\<close>: the keys read with
  \<^verbatim>\<open>config[...]\<close> are fields, the keys read with \<^verbatim>\<open>config.get(..., default)\<close> are
  optional: \<open>None\<close> is a key that is absent, for which \<^verbatim>\<open>get\<close> gives the default; a
  key that is present gives its value, also when that is \<^verbatim>\<open>None\<close> (\<open>Some Null\<close>).
\<close>

record config =
  cfg_name :: string
  cfg_local_folder :: string
  cfg_github_repo :: string
  cfg_github_token :: string
  cfg_autocommit_time :: "pyval option"
  cfg_branch :: "string option"
  cfg_commit_message_template :: "string option"
  cfg_ignore_patterns :: "string list option"

text \<open>\<^verbatim>\<open>_resolve_token\<close>; \<open>getenv\<close> is \<^verbatim>\<open>os.getenv\<close>.\<close>

definition resolve_token :: "(string \<Rightarrow> string option) \<Rightarrow> string \<Rightarrow> exn + string" where
  "resolve_token getenv token_config =
     (if prefix ''${'' token_config \<and> suffix ''}'' token_config then
        (let env_var = butlast (drop 2 token_config) in
         case getenv env_var of
           None \<Rightarrow> Inl (ValueError (''Environment variable '' @ env_var @ '' not set''))
         | Some token \<Rightarrow>
             if token = [] then
               Inl (ValueError (''Environment variable '' @ env_var @ '' not set''))
             else Inr token)
      else Inr token_config)"

definition remote_url :: "pair_attrs \<Rightarrow> string" where
  "remote_url cfg = ''https://'' @ github_token cfg @ ''@github.com/'' @ github_repo cfg @ ''.git''"

text \<open>\<^verbatim>\<open>os.path.join(self.local_folder, '.git')\<close>\<close>

definition git_folder :: "pair_attrs \<Rightarrow> string" where
  "git_folder cfg =
     (if local_folder cfg = [] then ''.git''
      else if last (local_folder cfg) = CHR ''/'' then local_folder cfg @ ''.git''
      else local_folder cfg @ ''/.git'')"

text \<open>
  \<^verbatim>\<open>try: self.repo.git.checkout(self.branch)\<close>
  \<^verbatim>\<open>except git.exc.GitCommandError: self.repo.git.checkout('-b', self.branch)\<close>
\<close>

definition checkout_branch :: "'r adapter \<Rightarrow> pair_attrs \<Rightarrow> ('r sync_pair, unit) prog" where
  "checkout_branch ad cfg =
     try_except (adapter_call (Checkout (branch cfg)) (git_checkout ad (branch cfg)))
       is_GitCommandError
       (\<lambda>_. adapter_call (CheckoutNew (branch cfg)) (git_checkout_b ad (branch cfg)))"

text \<open>
  The handler of \<^verbatim>\<open>_initialize_git\<close> for a repository whose HEAD does not resolve
  (lines 394 to 423). \<^verbatim>\<open>commits[0]\<close> is read only when the list is not empty.
\<close>

definition fix_head :: "'r adapter \<Rightarrow> pair_attrs \<Rightarrow> ('r sync_pair, unit) prog" where
  "fix_head ad cfg =
     bnd (logger INFO ''Repository exists but has no valid HEAD, fixing...'') (\<lambda>_.
     bnd (adapter_call IterCommits (iter_commits ad)) (\<lambda>commits.
     bnd (if commits \<noteq> [] then
            adapter_call (HeadReset (commits ! 0) True) (head_reset ad (commits ! 0) True)
          else
            bnd (adapter_call (IndexAdd ''*'') (index_add ad ''*'')) (\<lambda>_.
            bnd (adapter_call (IndexDiff ''HEAD'') (index_diff ad ''HEAD'')) (\<lambda>d.
            if d \<noteq> [] then
              adapter_call (IndexCommit ''Initial commit'') (index_commit ad ''Initial commit'')
            else
              adapter_call (IndexCommit ''Initial empty commit'')
                (index_commit ad ''Initial empty commit'')))) (\<lambda>_.
     bnd (checkout_branch ad cfg) (\<lambda>_.
     try_except
       (bnd (adapter_call HeadCommit (head_commit ad)) (\<lambda>_.
        logger INFO (''Successfully fixed HEAD reference for '' @ name cfg)))
       is_ValueError
       (\<lambda>e. bnd (logger ERROR (''Failed to fix HEAD reference for '' @ name cfg)) (\<lambda>_.
            raise e))))))"

text \<open>
  The check of HEAD with its repair, for a repository that was there already (lines 389
  to 423).
\<close>

definition repair_head :: "'r adapter \<Rightarrow> pair_attrs \<Rightarrow> ('r sync_pair, unit) prog" where
  "repair_head ad cfg =
     try_except
       (bnd (adapter_call HeadCommit (head_commit ad)) (\<lambda>_. ret ()))
       is_ValueError
       (\<lambda>_. fix_head ad cfg)"

definition initialize_git :: "'r adapter \<Rightarrow> pair_attrs \<Rightarrow> ('r sync_pair, unit) prog" where
  "initialize_git ad cfg =
     bnd (adapter_call (GitDirExists (git_folder cfg)) (git_dir_exists ad (git_folder cfg))) (\<lambda>exists.
     if \<not> exists then
       bnd (logger INFO (''Initializing git repository in '' @ local_folder cfg)) (\<lambda>_.
       bnd (adapter_call (RepoInit (local_folder cfg)) (repo_init ad (local_folder cfg))) (\<lambda>_.
       bnd (adapter_call (CreateRemote ''origin'' (remote_url cfg))
              (create_remote ad ''origin'' (remote_url cfg))) (\<lambda>_.
       bnd (adapter_call (FolderNonEmpty (local_folder cfg))
              (folder_non_empty ad (local_folder cfg))) (\<lambda>non_empty.
       if non_empty then
         bnd (adapter_call (IndexAdd ''*'') (index_add ad ''*'')) (\<lambda>_.
         bnd (adapter_call (IndexDiff ''HEAD'') (index_diff ad ''HEAD'')) (\<lambda>d.
         if d \<noteq> [] then
           adapter_call (IndexCommit ''Initial commit'') (index_commit ad ''Initial commit'')
         else ret ()))
       else ret ()))))
     else
       bnd (logger INFO (''Git repository already exists in '' @ local_folder cfg)) (\<lambda>_.
       bnd (adapter_call (RepoOpen (local_folder cfg)) (repo_open ad (local_folder cfg))) (\<lambda>_.
       bnd (adapter_call (HasRemote ''origin'') (has_remote ad ''origin'')) (\<lambda>present.
       bnd (if \<not> present then
              adapter_call (CreateRemote ''origin'' (remote_url cfg))
                (create_remote ad ''origin'' (remote_url cfg))
            else adapter_call (SetUrl (remote_url cfg)) (set_url ad (remote_url cfg))) (\<lambda>_.
       repair_head ad cfg)))))"

definition ensure_valid_repository :: "'r adapter \<Rightarrow> pair_attrs \<Rightarrow> ('r sync_pair, unit) prog" where
  "ensure_valid_repository ad cfg =
     try_except
       (bnd (adapter_call HeadCommit (head_commit ad)) (\<lambda>_. ret ()))
       is_ValueError
       (\<lambda>_.
        bnd (logger WARNING (''Invalid HEAD in '' @ name cfg @ '', attempting to fix...'')) (\<lambda>_.
        bnd (adapter_call IterCommits (iter_commits ad)) (\<lambda>commits.
        bnd (if commits \<noteq> [] then
               bnd (adapter_call (HeadReset (commits ! 0) True)
                      (head_reset ad (commits ! 0) True)) (\<lambda>_.
               logger INFO (''Reset HEAD to first commit in '' @ name cfg))
             else
               bnd (adapter_call (IndexCommit ''Initial empty commit'')
                      (index_commit ad ''Initial empty commit'')) (\<lambda>_.
               logger INFO (''Created initial commit in '' @ name cfg))) (\<lambda>_.
        checkout_branch ad cfg))))"

text \<open>
  \<^verbatim>\<open>SyncPair.__init__\<close> on the world \<open>r\<close>: the attributes, then the directory, the
  repository, \<^verbatim>\<open>last_sync_time = 0\<close>, the validity check and the lock. It returns the
  attributes, or raises.
\<close>

definition make_attrs :: "config \<Rightarrow> string \<Rightarrow> pair_attrs" where
  "make_attrs config token =
     \<lparr>name = cfg_name config,
      local_folder = cfg_local_folder config,
      github_repo = cfg_github_repo config,
      github_token = token,
      autocommit_time = (case cfg_autocommit_time config of None \<Rightarrow> Num 300 | Some t \<Rightarrow> t),
      branch = (case cfg_branch config of None \<Rightarrow> ''main'' | Some b \<Rightarrow> b),
      commit_message_template =
        (case cfg_commit_message_template config of None \<Rightarrow> ''Sync: {timestamp}'' | Some t \<Rightarrow> t),
      ignore_patterns = (case cfg_ignore_patterns config of None \<Rightarrow> [] | Some ps \<Rightarrow> ps)\<rparr>"

definition SyncPair_init ::
  "'r adapter \<Rightarrow> (string \<Rightarrow> string option) \<Rightarrow> config \<Rightarrow> 'r \<Rightarrow> (exn + pair_attrs) \<times> 'r sync_pair" where
  "SyncPair_init ad getenv config r =
     (let s0 = \<lparr>repo = r, last_sync_time = 0, sync_lock = False, calls = [], logs = []\<rparr> in
      case resolve_token getenv (cfg_github_token config) of
        Inl e \<Rightarrow> (Inl e, s0)
      | Inr token \<Rightarrow>
          (let cfg = make_attrs config token in
           bnd (adapter_call (Mkdir (local_folder cfg)) (mkdir ad (local_folder cfg))) (\<lambda>_.
           bnd (initialize_git ad cfg) (\<lambda>_.
           bnd (\<lambda>s. (Inr (), s\<lparr>last_sync_time := 0\<rparr>)) (\<lambda>_.
           bnd (ensure_valid_repository ad cfg) (\<lambda>_.
           bnd (\<lambda>s. (Inr (), s\<lparr>sync_lock := False\<rparr>)) (\<lambda>_.
           ret cfg))))) s0))"

subsection \<open>Several contexts calling \<^verbatim>\<open>sync\<close> on one pair\<close>

text \<open>
  The file watcher and the scheduler call \<^verbatim>\<open>sync\<close> of the same pair from different
  threads. Every context runs \<^verbatim>\<open>sync\<close> calls one after the other, each with its own
  reading of the clock; the parts of the calls of different contexts interleave in any
  order. \<^verbatim>\<open>threading.Lock\<close> makes \<^verbatim>\<open>acquire(blocking=False)\<close> one indivisible
  test-and-set. The statements inside the \<^verbatim>\<open>try\<close> are one part here: what another
  context can do meanwhile is shown by the steps of its own thread.
\<close>

inductive step ::
  "'r adapter \<Rightarrow> pair_attrs \<Rightarrow>
   'r sync_pair \<times> (nat \<Rightarrow> ('r sync_pair, exn + unit) thread) \<Rightarrow>
   'r sync_pair \<times> (nat \<Rightarrow> ('r sync_pair, exn + unit) thread) \<Rightarrow> bool"
  for ad :: "'r adapter" and cfg :: pair_attrs where
  part: "ctx i = Atomic l f \<Longrightarrow> f s = (s', rest) \<Longrightarrow> step ad cfg (s, ctx) (s', ctx(i := rest))"
| call: "ctx i = Return res \<Longrightarrow>
         step ad cfg (s, ctx) (s, ctx(i := sync_thread ad cfg current_time))"

text \<open>
  The states reached from a pair whose lock is free, as \<^verbatim>\<open>__init__\<close> leaves it, with
  no call under way.
\<close>

inductive reachable ::
  "'r adapter \<Rightarrow> pair_attrs \<Rightarrow> 'r sync_pair \<Rightarrow>
   'r sync_pair \<times> (nat \<Rightarrow> ('r sync_pair, exn + unit) thread) \<Rightarrow> bool"
  for ad :: "'r adapter" and cfg :: pair_attrs and s0 :: "'r sync_pair" where
  start: "\<not> sync_lock s0 \<Longrightarrow> reachable ad cfg s0 (s0, \<lambda>i. Return (Inr ()))"
| after: "reachable ad cfg s0 c \<Longrightarrow> step ad cfg c c' \<Longrightarrow> reachable ad cfg s0 c'"

text \<open>
  A call is in flight when it has taken the lock and has not released it yet: its next
  part is the \<^verbatim>\<open>try\<close> or the \<^verbatim>\<open>release\<close>.
\<close>

fun in_flight :: "('s, 'a) thread \<Rightarrow> bool" where
  "in_flight (Return res) = False"
| "in_flight (Atomic l f) = (l \<noteq> Acquire)"

subsection \<open>Sequences of \<^verbatim>\<open>sync\<close> calls\<close>

text \<open>One call after the other, each with its own reading of the clock.\<close>

fun sync_sequence :: "'r adapter \<Rightarrow> pair_attrs \<Rightarrow> real list \<Rightarrow> 'r sync_pair \<Rightarrow> 'r sync_pair" where
  "sync_sequence ad cfg [] s = s"
| "sync_sequence ad cfg (t # ts) s = sync_sequence ad cfg ts (snd (sync ad cfg t s))"

text \<open>The adapter calls that a statement adds to the record.\<close>

definition new_calls :: "('r sync_pair, 'a) prog \<Rightarrow> 'r sync_pair \<Rightarrow> call list" where
  "new_calls m s = drop (length (calls s)) (calls (snd (m s)))"

text \<open>
  A statement keeps the pair's own fields when it leaves \<open>last_sync_time\<close> and
  \<open>sync_lock\<close> as they are and only appends to the two observation fields.
\<close>

definition keeps :: "('r sync_pair, 'a) prog \<Rightarrow> bool" where
  "keeps m \<longleftrightarrow>
     (\<forall>s. last_sync_time (snd (m s)) = last_sync_time s \<and>
          sync_lock (snd (m s)) = sync_lock s \<and>
          prefix (calls s) (calls (snd (m s))) \<and>
          prefix (logs s) (logs (snd (m s))))"

text \<open>
  A statement lets no \<open>GitCommandError\<close> out when every exception it raises is of
  another class.
\<close>

definition no_git_error :: "('s, 'a) prog \<Rightarrow> bool" where
  "no_git_error m \<longleftrightarrow> (\<forall>s. case fst (m s) of Inl e \<Rightarrow> \<not> is_GitCommandError e | Inr v \<Rightarrow> True)"

text \<open>A statement whose adapter calls are all in \<open>A\<close>.\<close>

definition calls_within :: "call set \<Rightarrow> ('r sync_pair, 'a) prog \<Rightarrow> bool" where
  "calls_within A m \<longleftrightarrow> (\<forall>s. \<exists>cs. calls (snd (m s)) = calls s @ cs \<and> set cs \<subseteq> A)"

section \<open>A mock adapter\<close>

text \<open>
  A small adapter for concrete runs. Its world is a repository reduced to what the pair
  looks at: HEAD, the list of commits, the branches, the modified, untracked and staged
  paths, the paths committed so far, the remote-tracking ref and what the remote has
  that was not pulled yet. As with GitPython, listing the commits reads HEAD and raises
  \<open>ValueError\<close> when HEAD does not resolve, the diff against \<^verbatim>\<open>HEAD\<close> raises
  \<open>BadName\<close> then, and a directory that holds a repository is not empty. A \<open>behaviour\<close> fixes which operations fail: the outcome of
  the first, second, ... pull, and the errors of \<^verbatim>\<open>merge --abort\<close>,
  \<^verbatim>\<open>reset --hard\<close>, the push and \<^verbatim>\<open>active_branch\<close>.
\<close>

record behaviour =
  pull_errors :: "exn option list"
  merge_abort_error :: "exn option"
  reset_error :: "exn option"
  push_error :: "exn option"
  active_branch_error :: "exn option"

record world =
  w_git_dir :: bool
  w_remotes :: "string list"
  w_head :: "string option"
  w_history :: "string list"
  w_branch :: string
  w_branches :: "string list"
  w_modified :: "string list"
  w_untracked :: "string list"
  w_staged :: "string list"
  w_tree :: "string list"
  w_remote_tip :: "string option"
  w_upstream :: "string option"
  w_pulls :: nat

text \<open>
  The mock's \<^verbatim>\<open>str.lower()\<close>: right on the letters A to Z and on the two code points
  whose lower-case form holds an ASCII letter (U+212A, the Kelvin sign, becomes k;
  U+0130 becomes i followed by U+0307); every other byte is kept, which does not change
  where a text of ASCII letters occurs.
\<close>

definition lower_char :: "char \<Rightarrow> char" where
  "lower_char c =
     (let n = (of_char c :: nat) in if 65 \<le> n \<and> n \<le> 90 then char_of (n + 32) else c)"

fun lower :: "string \<Rightarrow> string" where
  "lower (a # b # c # cs) =
     (if (of_char a :: nat) = 226 \<and> (of_char b :: nat) = 132 \<and> (of_char c :: nat) = 170
      then CHR ''k'' # lower cs
      else if (of_char a :: nat) = 196 \<and> (of_char b :: nat) = 176
      then CHR ''i'' # char_of (204 :: nat) # char_of (135 :: nat) # lower (c # cs)
      else lower_char a # lower (b # c # cs))"
| "lower [a, b] =
     (if (of_char a :: nat) = 196 \<and> (of_char b :: nat) = 176
      then [CHR ''i'', char_of (204 :: nat), char_of (135 :: nat)]
      else [lower_char a, lower_char b])"
| "lower [a] = [lower_char a]"
| "lower [] = []"

definition outcome :: "exn option \<Rightarrow> world \<Rightarrow> (exn + unit) \<times> world" where
  "outcome err w = (case err of Some e \<Rightarrow> (Inl e, w) | None \<Rightarrow> (Inr (), w))"

definition mock_pull :: "behaviour \<Rightarrow> world \<Rightarrow> (exn + unit) \<times> world" where
  "mock_pull b w =
     (let w' = w\<lparr>w_pulls := Suc (w_pulls w)\<rparr> in
      case (if w_pulls w < length (pull_errors b) then pull_errors b ! w_pulls w else None) of
        Some e \<Rightarrow> (Inl e, w')
      | None \<Rightarrow>
          (case w_upstream w of
             Some h \<Rightarrow> (Inr (), w'\<lparr>w_head := Some h, w_history := h # w_history w,
                                   w_remote_tip := Some h, w_upstream := None\<rparr>)
           | None \<Rightarrow> (Inr (), w')))"

definition mock_adapter :: "behaviour \<Rightarrow> world adapter" where
  "mock_adapter b = \<lparr>
     mkdir = (\<lambda>p w. (Inr (), w)),
     git_dir_exists = (\<lambda>p w. (Inr (w_git_dir w), w)),
     repo_init = (\<lambda>p w. (Inr (), w\<lparr>w_git_dir := True\<rparr>)),
     repo_open = (\<lambda>p w. (Inr (), w)),
     has_remote = (\<lambda>n w. (Inr (n \<in> set (w_remotes w)), w)),
     create_remote = (\<lambda>n u w. (Inr (), w\<lparr>w_remotes := n # w_remotes w\<rparr>)),
     set_url = (\<lambda>u w. (Inr (), w)),
     folder_non_empty =
       (\<lambda>p w. (Inr (w_git_dir w \<or> w_modified w @ w_untracked w \<noteq> []), w)),
     head_commit = (\<lambda>w. case w_head w of
                          None \<Rightarrow> (Inl (ValueError ''Reference at HEAD does not exist''), w)
                        | Some h \<Rightarrow> (Inr h, w)),
     head_is_valid = (\<lambda>w. (Inr (w_head w \<noteq> None), w)),
     iter_commits = (\<lambda>w. case w_head w of
                           None \<Rightarrow> (Inl (ValueError ''Reference at HEAD does not exist''), w)
                         | Some h \<Rightarrow> (Inr (w_history w), w)),
     head_reset = (\<lambda>c t w. (Inr (), w\<lparr>w_head := Some c\<rparr>)),
     is_dirty = (\<lambda>w. (Inr (w_modified w \<noteq> [] \<or> w_staged w \<noteq> []), w)),
     active_branch = (\<lambda>w. case active_branch_error b of
                              Some e \<Rightarrow> (Inl e, w) | None \<Rightarrow> (Inr (w_branch w), w)),
     git_checkout = (\<lambda>n w. if n \<in> set (w_branches w) then (Inr (), w\<lparr>w_branch := n\<rparr>)
                            else (Inl (GitCommandError ''pathspec did not match''), w)),
     git_checkout_b = (\<lambda>n w. (Inr (), w\<lparr>w_branch := n, w_branches := n # w_branches w\<rparr>)),
     git_pull = (\<lambda>r n opts. mock_pull b),
     git_merge_abort = outcome (merge_abort_error b),
     git_reset_hard = (\<lambda>ref w. case reset_error b of
                                  Some e \<Rightarrow> (Inl e, w)
                                | None \<Rightarrow> (Inr (), w\<lparr>w_head := w_remote_tip w\<rparr>)),
     index_add = (\<lambda>p w. (Inr (), w\<lparr>w_staged := w_staged w @ w_modified w @ w_untracked w,
                                     w_modified := [], w_untracked := []\<rparr>)),
     index_diff = (\<lambda>ref w. case w_head w of
                             None \<Rightarrow> (Inl (BadName ''Ref HEAD did not resolve to an object''), w)
                           | Some h \<Rightarrow> (Inr (w_staged w), w)),
     index_commit = (\<lambda>m w. (Inr (), w\<lparr>w_head := Some m, w_history := m # w_history w,
                                        w_tree := w_tree w @ w_staged w, w_staged := []\<rparr>)),
     remote_ref = (\<lambda>n w. (Inr (w_remote_tip w), w)),
     remote_push = (\<lambda>n w. case push_error b of
                              Some e \<Rightarrow> (Inl e, w)
                            | None \<Rightarrow> (Inr (), w\<lparr>w_remote_tip := w_head w\<rparr>)),
     format_commit_message =
       (\<lambda>t w. (Inr (takeWhile (\<lambda>c. c \<noteq> CHR ''{'') t @ ''2026-01-01 00:00:00''), w)),
     str_lower = lower
   \<rparr>"

definition quiet :: behaviour where
  "quiet = \<lparr>pull_errors = [], merge_abort_error = None, reset_error = None,
            push_error = None, active_branch_error = None\<rparr>"

definition world0 :: world where
  "world0 = \<lparr>w_git_dir = True, w_remotes = [''origin''], w_head = Some ''c0'',
             w_history = [''c0''], w_branch = ''main'', w_branches = [''main''],
             w_modified = [], w_untracked = [], w_staged = [], w_tree = [],
             w_remote_tip = Some ''c0'', w_upstream = None, w_pulls = 0\<rparr>"

definition cfg0 :: pair_attrs where
  "cfg0 = \<lparr>name = ''docs'', local_folder = ''/data/docs'', github_repo = ''user/docs'',
           github_token = ''t0ken'', autocommit_time = Num 10, branch = ''main'',
           commit_message_template = ''Sync: {timestamp}'', ignore_patterns = []\<rparr>"

definition pair0 :: "world \<Rightarrow> world sync_pair" where
  "pair0 w = \<lparr>repo = w, last_sync_time = 0, sync_lock = False, calls = [], logs = []\<rparr>"

text \<open>A remote that cannot be reached when pushing.\<close>

definition push_fails :: behaviour where
  "push_fails = quiet\<lparr>push_error := Some (GitCommandError ''could not read from remote'')\<rparr>"

text \<open>
  A branch that the remote does not know yet (no remote-tracking ref), and a working
  tree with one new file.
\<close>

definition unpublished :: world where
  "unpublished = world0\<lparr>w_remote_tip := None\<rparr>"

definition drafted :: world where
  "drafted = world0\<lparr>w_untracked := [''a.txt'']\<rparr>"

text \<open>
  A first pull that fails for a reason that is neither a merge conflict nor an untracked
  file, a detached HEAD (for which \<^verbatim>\<open>repo.active_branch\<close> raises \<^verbatim>\<open>TypeError\<close>), and
  a hard reset that fails.
\<close>

definition pull_times_out :: behaviour where
  "pull_times_out = quiet\<lparr>pull_errors := [Some (GitCommandError ''Connection timed out'')]\<rparr>"

definition detached_head :: behaviour where
  "detached_head =
     quiet\<lparr>active_branch_error :=
              Some (TypeError ''HEAD is a detached symbolic reference'')\<rparr>"

definition reset_fails :: "behaviour \<Rightarrow> behaviour" where
  "reset_fails b = b\<lparr>reset_error := Some (GitCommandError ''unknown revision origin/main'')\<rparr>"

text \<open>A first pull that stops on a merge conflict; the pulls after it succeed.\<close>

definition merge_conflict :: behaviour where
  "merge_conflict =
     quiet\<lparr>pull_errors := [Some (GitCommandError ''CONFLICT (content): Merge conflict in a.txt'')]\<rparr>"

text \<open>
  A first pull that stops on a conflict that git reports in other words (a file deleted
  on one side and modified on the other).
\<close>

definition modify_delete :: behaviour where
  "modify_delete =
     quiet\<lparr>pull_errors :=
              [Some (GitCommandError ''CONFLICT (modify/delete): a.txt deleted in HEAD and modified in c1'')]\<rparr>"

text \<open>A working tree with a modified tracked file.\<close>

definition edited :: world where
  "edited = world0\<lparr>w_modified := [''a.txt'']\<rparr>"

text \<open>
  A configuration dictionary with its environment, and a repository that exists but has
  no commit yet.
\<close>

definition config0 :: config where
  "config0 = \<lparr>cfg_name = ''docs'', cfg_local_folder = ''/data/docs'',
               cfg_github_repo = ''user/docs'', cfg_github_token = ''${GITHUB_TOKEN}'',
               cfg_autocommit_time = Some (Num 10), cfg_branch = None,
               cfg_commit_message_template = None, cfg_ignore_patterns = None\<rparr>"

definition getenv0 :: "string \<Rightarrow> string option" where
  "getenv0 v = (if v = ''GITHUB_TOKEN'' then Some ''t0ken'' else None)"

definition unborn :: world where
  "unborn = \<lparr>w_git_dir = True, w_remotes = [''origin''], w_head = None,
             w_history = [], w_branch = ''master'', w_branches = [],
             w_modified = [], w_untracked = [], w_staged = [], w_tree = [],
             w_remote_tip = None, w_upstream = None, w_pulls = 0\<rparr>"

text \<open>A folder with one file and no repository yet.\<close>

definition fresh :: world where
  "fresh = unborn\<lparr>w_git_dir := False, w_remotes := [], w_untracked := [''a.txt'']\<rparr>"

section \<open>Frame lemmas\<close>

lemmas prog_defs = ret_def raise_def bnd_def try_except_def try_finally_def adapter_call_def
  library_call_def logger_def

lemmas mock_defs = mock_adapter_def mock_pull_def outcome_def quiet_def world0_def cfg0_def
  pair0_def

lemmas thread_defs = sync_def sync_thread_def try_thread_def release_thread_def

lemmas run_defs = sync_guarded_def
  elapsed_less_def sync_cycle_def sync_steps_def acquire_nonblocking_def release_def
  pull_changes_def pull_try_def pull_branch_def pull_except_def pull_recover_def
  recover_conflict_def recover_untracked_def recover_other_def head_hexsha_def pull_origin_def
  reset_to_remote_def commit_and_push_def pull_options_def is_Exception_def

lemma keeps_ret: "keeps (ret v)"
  by (simp add: keeps_def ret_def)

lemma keeps_raise: "keeps (raise e)"
  by (simp add: keeps_def raise_def)

lemma keeps_logger: "keeps (logger lv msg)"
  by (simp add: keeps_def logger_def)

lemma keeps_adapter_call: "keeps (adapter_call c f)"
  by (simp add: keeps_def adapter_call_def split: prod.splits)

lemma keeps_library_call: "keeps (library_call f)"
  by (simp add: keeps_def library_call_def split: prod.splits)

lemma keeps_bnd:
  assumes "keeps m" and "\<And>v. keeps (f v)"
  shows "keeps (bnd m f)"
proof -
  have "last_sync_time (snd (bnd m f s)) = last_sync_time s \<and>
        sync_lock (snd (bnd m f s)) = sync_lock s \<and>
        prefix (calls s) (calls (snd (bnd m f s))) \<and>
        prefix (logs s) (logs (snd (bnd m f s)))" for s
  proof (cases "m s")
    case (Pair r s1)
    from assms(1) have m: "last_sync_time (snd (m s)) = last_sync_time s"
      "sync_lock (snd (m s)) = sync_lock s" "prefix (calls s) (calls (snd (m s)))"
      "prefix (logs s) (logs (snd (m s)))"
      by (simp_all add: keeps_def)
    show ?thesis
    proof (cases r)
      case (Inl e)
      with Pair m show ?thesis by (simp add: bnd_def)
    next
      case (Inr v)
      from assms(2)[of v] have f: "last_sync_time (snd (f v s1)) = last_sync_time s1"
        "sync_lock (snd (f v s1)) = sync_lock s1" "prefix (calls s1) (calls (snd (f v s1)))"
        "prefix (logs s1) (logs (snd (f v s1)))"
        by (simp_all add: keeps_def)
      from Pair m f have "prefix (calls s) (calls (snd (f v s1)))"
        and "prefix (logs s) (logs (snd (f v s1)))"
        using prefix_order.trans by fastforce+
      with Pair Inr m f show ?thesis by (simp add: bnd_def)
    qed
  qed
  then show ?thesis by (simp add: keeps_def)
qed

lemma keeps_try_except:
  assumes "keeps m" and "\<And>e. keeps (h e)"
  shows "keeps (try_except m catches h)"
proof -
  have "last_sync_time (snd (try_except m catches h s)) = last_sync_time s \<and>
        sync_lock (snd (try_except m catches h s)) = sync_lock s \<and>
        prefix (calls s) (calls (snd (try_except m catches h s))) \<and>
        prefix (logs s) (logs (snd (try_except m catches h s)))" for s
  proof (cases "m s")
    case (Pair r s1)
    from assms(1) have m: "last_sync_time (snd (m s)) = last_sync_time s"
      "sync_lock (snd (m s)) = sync_lock s" "prefix (calls s) (calls (snd (m s)))"
      "prefix (logs s) (logs (snd (m s)))"
      by (simp_all add: keeps_def)
    show ?thesis
    proof (cases r)
      case (Inr v)
      with Pair m show ?thesis by (simp add: try_except_def)
    next
      case (Inl e)
      from assms(2)[of e] have h: "last_sync_time (snd (h e s1)) = last_sync_time s1"
        "sync_lock (snd (h e s1)) = sync_lock s1" "prefix (calls s1) (calls (snd (h e s1)))"
        "prefix (logs s1) (logs (snd (h e s1)))"
        by (simp_all add: keeps_def)
      from Pair m h have "prefix (calls s) (calls (snd (h e s1)))"
        and "prefix (logs s) (logs (snd (h e s1)))"
        using prefix_order.trans by fastforce+
      with Pair Inl m h show ?thesis by (simp add: try_except_def)
    qed
  qed
  then show ?thesis by (simp add: keeps_def)
qed

lemma keeps_if: "keeps m \<Longrightarrow> keeps n \<Longrightarrow> keeps (if b then m else n)"
  by simp

lemmas keeps_intros = keeps_bnd keeps_try_except keeps_if keeps_ret keeps_raise keeps_logger
  keeps_adapter_call keeps_library_call

lemma keeps_commit_and_push: "keeps (commit_and_push ad cfg)"
  unfolding commit_and_push_def by (intro keeps_intros)

lemma keeps_head_hexsha: "keeps (head_hexsha ad)"
  unfolding head_hexsha_def by (intro keeps_intros)

lemma keeps_pull_origin: "keeps (pull_origin ad cfg)"
  unfolding pull_origin_def by (intro keeps_intros)

lemma keeps_reset_to_remote: "keeps (reset_to_remote ad cfg)"
  unfolding reset_to_remote_def by (intro keeps_intros)

lemma keeps_pull_branch: "keeps (pull_branch ad cfg)"
  unfolding pull_branch_def
  by (intro keeps_intros keeps_head_hexsha keeps_pull_origin)

lemma keeps_pull_try: "keeps (pull_try ad cfg)"
  unfolding pull_try_def
  by (intro keeps_intros keeps_commit_and_push keeps_pull_branch)

lemma keeps_pull_recover: "keeps (pull_recover ad cfg e)"
  unfolding pull_recover_def recover_conflict_def recover_untracked_def recover_other_def
  by (intro keeps_intros keeps_pull_origin keeps_reset_to_remote)

lemma keeps_pull_except: "keeps (pull_except ad cfg e)"
  unfolding pull_except_def
  by (intro keeps_intros keeps_pull_recover)

lemma keeps_pull_changes: "keeps (pull_changes ad cfg)"
  unfolding pull_changes_def by (intro keeps_intros keeps_pull_try keeps_pull_except)

lemma keepsD:
  assumes "keeps m" and "m s = (r, s')"
  shows "last_sync_time s' = last_sync_time s" and "sync_lock s' = sync_lock s"
    and "prefix (calls s) (calls s')" and "prefix (logs s) (logs s')"
proof -
  from assms(1) have "last_sync_time (snd (m s)) = last_sync_time s \<and>
      sync_lock (snd (m s)) = sync_lock s \<and>
      prefix (calls s) (calls (snd (m s))) \<and> prefix (logs s) (logs (snd (m s)))"
    unfolding keeps_def by blast
  with assms(2) show "last_sync_time s' = last_sync_time s" and "sync_lock s' = sync_lock s"
    and "prefix (calls s) (calls s')" and "prefix (logs s) (logs s')"
    by simp_all
qed

lemma bnd_sets_time:
  assumes "keeps m"
    and "\<And>v s. sync_lock (snd (f v s)) = sync_lock s \<and>
           last_sync_time (snd (f v s)) =
             (case fst (f v s) of Inl e \<Rightarrow> last_sync_time s | Inr u \<Rightarrow> t)"
  shows "sync_lock (snd (bnd m f s)) = sync_lock s \<and>
         last_sync_time (snd (bnd m f s)) =
           (case fst (bnd m f s) of Inl e \<Rightarrow> last_sync_time s | Inr u \<Rightarrow> t)"
proof (cases "m s")
  case (Pair r s1)
  note k = keepsD(1,2)[OF assms(1) Pair]
  show ?thesis
  proof (cases r)
    case (Inl e)
    with Pair k show ?thesis by (simp add: bnd_def)
  next
    case (Inr v)
    with Pair k assms(2)[of v s1] show ?thesis by (simp add: bnd_def split: sum.splits)
  qed
qed

text \<open>
  The statements of the inner \<^verbatim>\<open>try\<close> either raise, leaving \<open>last_sync_time\<close> alone,
  or return after setting it to the clock reading; the lock is not touched.
\<close>

lemma sync_steps_cases:
  "sync_lock (snd (sync_steps ad cfg t s)) = sync_lock s \<and>
   last_sync_time (snd (sync_steps ad cfg t s)) =
     (case fst (sync_steps ad cfg t s) of Inl e \<Rightarrow> last_sync_time s | Inr u \<Rightarrow> t)"
  unfolding sync_steps_def
  by (intro bnd_sets_time keeps_intros keeps_pull_changes keeps_commit_and_push) simp

lemma sync_cycle_cases:
  "sync_lock (snd (sync_cycle ad cfg t s)) = sync_lock s \<and>
   fst (sync_cycle ad cfg t s) = Inr () \<and>
   last_sync_time (snd (sync_cycle ad cfg t s)) =
     (case fst (sync_steps ad cfg t s) of Inl e \<Rightarrow> last_sync_time s | Inr u \<Rightarrow> t)"
proof (cases "sync_steps ad cfg t s")
  case (Pair r s1)
  with sync_steps_cases[of ad cfg t s] show ?thesis
    by (cases r) (simp_all add: sync_cycle_def try_except_def is_Exception_def logger_def)
qed

text \<open>
  Run without interruption, the three parts of \<^verbatim>\<open>sync\<close> are the function as it is
  written: the early return when the lock is taken, and a \<^verbatim>\<open>try ... finally\<close>.
\<close>

lemma run_Atomic: "run (Atomic l f) s = (case f s of (s', rest) \<Rightarrow> run rest s')"
  by (simp split: prod.splits)

lemma sync_monadic:
  "sync ad cfg t =
     bnd acquire_nonblocking (\<lambda>acquired.
     if \<not> acquired then ret ()
     else try_finally (sync_guarded ad cfg t) release)"
proof
  fix s
  show "sync ad cfg t s =
     bnd acquire_nonblocking (\<lambda>acquired.
     if \<not> acquired then ret ()
     else try_finally (sync_guarded ad cfg t) release) s"
    by (simp add: sync_def sync_thread_def try_thread_def release_thread_def run_Atomic
        bnd_def ret_def try_finally_def acquire_nonblocking_def release_def
        split: prod.splits sum.splits)
qed

lemma sync_unfold:
  "sync ad cfg t s =
     (if sync_lock s then (Inr (), s)
      else case elapsed_less (t - last_sync_time s) (autocommit_time cfg) of
             Inl e \<Rightarrow> (Inl e, s)
           | Inr skip \<Rightarrow>
               if skip then (Inr (), s)
               else (fst (sync_cycle ad cfg t (s\<lparr>sync_lock := True\<rparr>)),
                     (snd (sync_cycle ad cfg t (s\<lparr>sync_lock := True\<rparr>)))\<lparr>sync_lock := False\<rparr>))"
  by (simp add: sync_monadic bnd_def acquire_nonblocking_def ret_def try_finally_def
      sync_guarded_def release_def split: prod.splits sum.splits)

lemma sync_time_cases:
  assumes "\<forall>a. autocommit_time cfg = Num a \<longrightarrow> 0 \<le> a"
  shows "last_sync_time (snd (sync ad cfg t s)) = last_sync_time s \<or>
         last_sync_time (snd (sync ad cfg t s)) = t \<and> last_sync_time s \<le> t"
proof (cases "sync_lock s \<or> elapsed_less (t - last_sync_time s) (autocommit_time cfg) \<noteq> Inr False")
  case True
  then show ?thesis
    by (cases "elapsed_less (t - last_sync_time s) (autocommit_time cfg)")
      (auto simp: sync_unfold)
next
  case False
  then obtain a where a: "autocommit_time cfg = Num a" and "\<not> t - last_sync_time s < a"
    by (cases "autocommit_time cfg") (auto simp: elapsed_less_def)
  with assms have le: "last_sync_time s \<le> t" by simp
  from sync_cycle_cases[of ad cfg t "s\<lparr>sync_lock := True\<rparr>"]
  have "last_sync_time (snd (sync_cycle ad cfg t (s\<lparr>sync_lock := True\<rparr>))) = last_sync_time s \<or>
        last_sync_time (snd (sync_cycle ad cfg t (s\<lparr>sync_lock := True\<rparr>))) = t"
    by (simp split: sum.splits)
  with False le show ?thesis by (auto simp: sync_unfold)
qed

lemma sync_releases: "\<not> sync_lock s \<Longrightarrow> \<not> sync_lock (snd (sync ad cfg t s))"
  using sync_cycle_cases[of ad cfg t "s\<lparr>sync_lock := True\<rparr>"]
  by (simp add: sync_unfold split: sum.splits)

text \<open>
  An attempted cycle, statement by statement: what \<^verbatim>\<open>sync\<close> returns and the state it
  leaves, from the outcomes of its two steps.
\<close>

lemma sync_steps_run:
  assumes "pull_changes ad cfg s = (rp, s1)"
    and "commit_and_push ad cfg
           (snd ((if rp = Inr False then logger INFO (''No new changes pulled for '' @ name cfg)
                  else ret ()) s1)) = (rc, s2)"
  shows "sync_steps ad cfg t s =
           (case rp of
              Inl e \<Rightarrow> (Inl e, s1)
            | Inr p \<Rightarrow>
                (case rc of
                   Inl e \<Rightarrow> (Inl e, s2)
                 | Inr c \<Rightarrow>
                     (Inr (),
                      (snd ((if \<not> c
                             then logger INFO (''No local changes to commit or push for '' @ name cfg)
                             else ret ()) s2))\<lparr>last_sync_time := t\<rparr>)))"
proof (cases rp)
  case (Inl e)
  with assms(1) show ?thesis by (simp add: sync_steps_def bnd_def)
next
  case (Inr pulled)
  show ?thesis
  proof (cases pulled)
    case True
    with Inr assms show ?thesis
      by (cases rc) (simp_all add: sync_steps_def bnd_def ret_def logger_def)
  next
    case False
    with Inr assms show ?thesis
      by (cases rc) (simp_all add: sync_steps_def bnd_def ret_def logger_def)
  qed
qed

lemma sync_attempt_state:
  assumes "\<not> sync_lock s"
    and "elapsed_less (t - last_sync_time s) (autocommit_time cfg) = Inr False"
    and "pull_changes ad cfg (s\<lparr>sync_lock := True\<rparr>) = (rp, s1)"
    and "commit_and_push ad cfg
           (snd ((if rp = Inr False then logger INFO (''No new changes pulled for '' @ name cfg)
                  else ret ()) s1)) = (rc, s2)"
  shows "sync ad cfg t s =
           (Inr (),
            (case rp of
               Inl e \<Rightarrow>
                 s1\<lparr>logs := logs s1 @ [(ERROR, ''Sync error for '' @ name cfg @ '': '' @ str e)]\<rparr>
             | Inr p \<Rightarrow>
                 (case rc of
                    Inl e \<Rightarrow>
                      s2\<lparr>logs := logs s2 @
                             [(ERROR, ''Sync error for '' @ name cfg @ '': '' @ str e)]\<rparr>
                  | Inr c \<Rightarrow>
                      (snd ((if \<not> c
                             then logger INFO (''No local changes to commit or push for '' @ name cfg)
                             else ret ()) s2))\<lparr>last_sync_time := t\<rparr>))\<lparr>sync_lock := False\<rparr>)"
proof -
  note st = sync_steps_run[OF assms(3,4), of t]
  have "sync_cycle ad cfg t (s\<lparr>sync_lock := True\<rparr>) =
          (Inr (),
            (case rp of
               Inl e \<Rightarrow>
                 s1\<lparr>logs := logs s1 @ [(ERROR, ''Sync error for '' @ name cfg @ '': '' @ str e)]\<rparr>
             | Inr p \<Rightarrow>
                 (case rc of
                    Inl e \<Rightarrow>
                      s2\<lparr>logs := logs s2 @
                             [(ERROR, ''Sync error for '' @ name cfg @ '': '' @ str e)]\<rparr>
                  | Inr c \<Rightarrow>
                      (snd ((if \<not> c
                             then logger INFO (''No local changes to commit or push for '' @ name cfg)
                             else ret ()) s2))\<lparr>last_sync_time := t\<rparr>)))"
    unfolding sync_cycle_def try_except_def st
    by (cases rp; cases rc) (simp_all add: is_Exception_def logger_def)
  with assms(1,2) show ?thesis by (simp add: sync_unfold)
qed

lemma keeps_checkout_branch: "keeps (checkout_branch ad cfg)"
  unfolding checkout_branch_def by (intro keeps_intros)

lemma keeps_fix_head: "keeps (fix_head ad cfg)"
  unfolding fix_head_def by (intro keeps_intros keeps_checkout_branch)

lemma calls_new_calls:
  assumes "keeps m"
  shows "calls (snd (m s)) = calls s @ new_calls m s"
proof -
  from assms have "prefix (calls s) (calls (snd (m s)))" by (simp add: keeps_def)
  then show ?thesis by (auto simp: prefix_def new_calls_def)
qed

text \<open>The mock's lower-casing, and the classes of the error texts used below.\<close>

declare lower.simps [simp del]

lemma str_lower_mock: "str_lower (mock_adapter b) = lower"
  by (simp add: mock_adapter_def)

lemma timed_out_class:
  "\<not> sublist ''merge conflict'' (lower ''Connection timed out'')"
  "\<not> sublist ''untracked working tree files'' (lower ''Connection timed out'')"
  by code_simp+

lemma conflict_class:
  "sublist ''merge conflict'' (lower ''CONFLICT (content): Merge conflict in a.txt'')"
  by code_simp

lemma modify_delete_class:
  "\<not> sublist ''merge conflict''
       (lower ''CONFLICT (modify/delete): a.txt deleted in HEAD and modified in c1'')"
  "\<not> sublist ''untracked working tree files''
       (lower ''CONFLICT (modify/delete): a.txt deleted in HEAD and modified in c1'')"
  by code_simp+

text \<open>
  The comparison of line 440 is outside the inner \<^verbatim>\<open>try\<close>: with an interval that is
  \<^verbatim>\<open>None\<close> the \<^verbatim>\<open>TypeError\<close> leaves \<^verbatim>\<open>sync\<close>, after the lock is released.
\<close>

lemma sync_null_interval_raises:
  assumes "\<not> sync_lock s" and "autocommit_time cfg = Null"
  shows "sync ad cfg t s =
           (Inl (TypeError ''< not supported between instances of float and NoneType''), s)"
  using assms by (simp add: sync_unfold elapsed_less_def)

text \<open>
  The Kelvin sign (U+212A, the bytes E2 84 AA) is lower-cased to the letter k, so that a
  text holding it in place of a k is read as Python reads it.
\<close>

lemma lower_kelvin_sign:
  "sublist ''untracked working tree files''
     (lower (''untrac'' @ [char_of (226::nat), char_of (132::nat), char_of (170::nat)] @
             ''ed working tree files''))"
  by code_simp

section \<open>The rate limit of \<^verbatim>\<open>sync\<close>\<close>

text \<open>
  Claim C5. A \<^verbatim>\<open>sync\<close> call made when the time elapsed since \<open>last_sync_time\<close> is
  less than the autocommit interval (a number \<open>a\<close>) returns with the pair exactly as it was: no adapter
  call is made, nothing is logged, \<open>last_sync_time\<close> is unchanged and the lock is as it was
  before the call. This holds for every caller, since \<^verbatim>\<open>sync\<close> has no argument that
  names the trigger.
\<close>

theorem sync_rate_limited_skips:
  assumes "autocommit_time cfg = Num a"
    and "current_time - last_sync_time s < a"
  shows "sync ad cfg current_time s = (Inr (), s) \<and> new_calls (sync ad cfg current_time) s = []"
  using assms by (simp add: sync_unfold elapsed_less_def new_calls_def)

text \<open>A call 5 seconds after a sync at time 100, with an interval of 10 seconds.\<close>

theorem sync_rate_limited_skips_witness:
  "autocommit_time cfg0 = Num 10 \<and>
   (105::real) - last_sync_time ((pair0 world0)\<lparr>last_sync_time := 100\<rparr>) < 10 \<and>
   sync (mock_adapter quiet) cfg0 105 ((pair0 world0)\<lparr>last_sync_time := 100\<rparr>) =
     (Inr (), (pair0 world0)\<lparr>last_sync_time := 100\<rparr>) \<and>
   new_calls (sync (mock_adapter quiet) cfg0 105) ((pair0 world0)\<lparr>last_sync_time := 100\<rparr>) = []"
proof -
  have a: "autocommit_time cfg0 = Num 10" by (simp add: cfg0_def)
  have h: "(105::real) - last_sync_time ((pair0 world0)\<lparr>last_sync_time := 100\<rparr>) < 10"
    by simp
  from sync_rate_limited_skips[OF a h, of "mock_adapter quiet"] a h show ?thesis by simp
qed

text \<open>
  Claim C9. With a non-negative autocommit interval (when the configured value is a
  number, it is at least 0), a \<^verbatim>\<open>sync\<close> call with any clock reading either leaves \<open>last_sync_time\<close> unchanged or sets it to the clock reading, which
  is then no smaller than the previous value; so over every sequence of calls
  \<open>last_sync_time\<close> never decreases.
\<close>

theorem last_sync_time_never_decreases:
  assumes "\<forall>a. autocommit_time cfg = Num a \<longrightarrow> 0 \<le> a"
  shows "(last_sync_time (snd (sync ad cfg t s)) = last_sync_time s \<or>
          last_sync_time (snd (sync ad cfg t s)) = t \<and> last_sync_time s \<le> t) \<and>
         last_sync_time s \<le> last_sync_time (sync_sequence ad cfg ts s)"
proof
  show "last_sync_time (snd (sync ad cfg t s)) = last_sync_time s \<or>
        last_sync_time (snd (sync ad cfg t s)) = t \<and> last_sync_time s \<le> t"
    by (rule sync_time_cases[OF assms])
next
  show "last_sync_time s \<le> last_sync_time (sync_sequence ad cfg ts s)"
  proof (induction ts arbitrary: s)
    case Nil
    show ?case by simp
  next
    case (Cons u us)
    from sync_time_cases[OF assms, of ad u s]
    have "last_sync_time s \<le> last_sync_time (snd (sync ad cfg u s))" by auto
    also have "\<dots> \<le> last_sync_time (sync_sequence ad cfg us (snd (sync ad cfg u s)))"
      by (rule Cons.IH)
    finally show ?case by simp
  qed
qed

text \<open>Three calls whose clock readings go 100, 50, 200, with an interval of 10 seconds.\<close>

theorem last_sync_time_never_decreases_witness:
  "autocommit_time cfg0 = Num 10 \<and>
   last_sync_time (pair0 world0)
     \<le> last_sync_time (sync_sequence (mock_adapter quiet) cfg0 [100, 50, 200] (pair0 world0)) \<and>
   last_sync_time (sync_sequence (mock_adapter quiet) cfg0 [100, 50, 200] (pair0 world0)) = 200"
proof -
  have a: "autocommit_time cfg0 = Num 10" by (simp add: cfg0_def)
  have h: "\<forall>a. autocommit_time cfg0 = Num a \<longrightarrow> 0 \<le> a" by (simp add: cfg0_def)
  have v: "last_sync_time (sync_sequence (mock_adapter quiet) cfg0 [100, 50, 200] (pair0 world0)) = 200"
    by (simp add: sync_unfold run_defs prog_defs mock_defs)
  from last_sync_time_never_decreases[OF h, of "mock_adapter quiet" 100 "pair0 world0" "[100, 50, 200]"] a v
  show ?thesis by simp
qed
section \<open>The timestamp of an attempted cycle\<close>

text \<open>
  Claim C1, as the code has it. A \<^verbatim>\<open>sync\<close> call that passes the lock and the rate
  limit returns normally, with the lock released, in one of three states. When
  \<^verbatim>\<open>_pull_changes\<close> and \<^verbatim>\<open>_commit_and_push\<close> both return, whatever booleans they
  return (a pull failure that \<^verbatim>\<open>_pull_changes\<close> handled itself included),
  \<open>last_sync_time\<close> is set to the clock reading. When an exception \<open>e\<close> leaves either
  step, the handler of \<^verbatim>\<open>sync\<close> catches it, the state is the one that step left plus
  the one log line \<^verbatim>\<open>Sync error for <name>: <e>\<close> at level ERROR, and \<open>last_sync_time\<close>
  keeps its old value: the assignment of line 452 is inside the \<^verbatim>\<open>try\<close>, after both
  steps.
\<close>

theorem sync_attempt_timestamp:
  assumes "\<not> sync_lock s"
    and "autocommit_time cfg = Num a"
    and "a \<le> current_time - last_sync_time s"
    and "pull_changes ad cfg (s\<lparr>sync_lock := True\<rparr>) = (rp, s1)"
    and "commit_and_push ad cfg
           (snd ((if rp = Inr False then logger INFO (''No new changes pulled for '' @ name cfg)
                  else ret ()) s1)) = (rc, s2)"
  shows "sync ad cfg current_time s =
           (Inr (),
            (case rp of
               Inl e \<Rightarrow>
                 s1\<lparr>logs := logs s1 @ [(ERROR, ''Sync error for '' @ name cfg @ '': '' @ str e)]\<rparr>
             | Inr p \<Rightarrow>
                 (case rc of
                    Inl e \<Rightarrow>
                      s2\<lparr>logs := logs s2 @
                             [(ERROR, ''Sync error for '' @ name cfg @ '': '' @ str e)]\<rparr>
                  | Inr c \<Rightarrow>
                      (snd ((if \<not> c
                             then logger INFO (''No local changes to commit or push for '' @ name cfg)
                             else ret ()) s2))\<lparr>last_sync_time := current_time\<rparr>))
            \<lparr>sync_lock := False\<rparr>) \<and>
         last_sync_time (snd (sync ad cfg current_time s)) =
           (if isl rp \<or> isl rc then last_sync_time s else current_time)"
proof
  from assms(2,3)
  have el: "elapsed_less (current_time - last_sync_time s) (autocommit_time cfg) = Inr False"
    by (simp add: elapsed_less_def)
  show "sync ad cfg current_time s =
           (Inr (),
            (case rp of
               Inl e \<Rightarrow>
                 s1\<lparr>logs := logs s1 @ [(ERROR, ''Sync error for '' @ name cfg @ '': '' @ str e)]\<rparr>
             | Inr p \<Rightarrow>
                 (case rc of
                    Inl e \<Rightarrow>
                      s2\<lparr>logs := logs s2 @
                             [(ERROR, ''Sync error for '' @ name cfg @ '': '' @ str e)]\<rparr>
                  | Inr c \<Rightarrow>
                      (snd ((if \<not> c
                             then logger INFO (''No local changes to commit or push for '' @ name cfg)
                             else ret ()) s2))\<lparr>last_sync_time := current_time\<rparr>))
            \<lparr>sync_lock := False\<rparr>)"
    by (rule sync_attempt_state[OF assms(1) el assms(4,5)])
  have st: "isl (fst (sync_steps ad cfg current_time (s\<lparr>sync_lock := True\<rparr>))) \<longleftrightarrow> isl rp \<or> isl rc"
    unfolding sync_steps_run[OF assms(4,5), of current_time]
    by (simp split: sum.splits)
  from assms(1) el have "last_sync_time (snd (sync ad cfg current_time s)) =
      last_sync_time (snd (sync_cycle ad cfg current_time (s\<lparr>sync_lock := True\<rparr>)))"
    by (simp add: sync_unfold)
  also have "\<dots> = (case fst (sync_steps ad cfg current_time (s\<lparr>sync_lock := True\<rparr>)) of
                     Inl e \<Rightarrow> last_sync_time s | Inr u \<Rightarrow> current_time)"
    using sync_cycle_cases[of ad cfg current_time "s\<lparr>sync_lock := True\<rparr>"]
    by (simp split: sum.splits)
  also have "\<dots> = (if isl (fst (sync_steps ad cfg current_time (s\<lparr>sync_lock := True\<rparr>)))
                    then last_sync_time s else current_time)"
    by (simp split: sum.splits)
  finally show "last_sync_time (snd (sync ad cfg current_time s)) =
           (if isl rp \<or> isl rc then last_sync_time s else current_time)"
    by (simp add: st)
qed

text \<open>
  Claim C1 as stated fails: with a push that raises, the cycle is attempted at time 100,
  the error is logged by \<^verbatim>\<open>sync\<close>, which returns, and \<open>last_sync_time\<close> is still 0.
\<close>

theorem sync_failed_push_keeps_timestamp:
  "\<not> sync_lock (pair0 world0) \<and>
   autocommit_time cfg0 = Num 10 \<and>
   \<not> (100 - last_sync_time (pair0 world0) < (10::real)) \<and>
   fst (sync (mock_adapter push_fails) cfg0 100 (pair0 world0)) = Inr () \<and>
   last_sync_time (snd (sync (mock_adapter push_fails) cfg0 100 (pair0 world0))) = 0 \<and>
   logs (snd (sync (mock_adapter push_fails) cfg0 100 (pair0 world0))) =
     [(INFO, ''No new changes pulled for docs''),
      (ERROR, ''Sync error for docs: could not read from remote'')]"
  by (simp add: sync_unfold run_defs prog_defs mock_defs push_fails_def)

text \<open>
  The amended statement at a cycle where both steps return, at one whose pull times out
  and is handled by \<^verbatim>\<open>_pull_changes\<close>, and at one where the push raises.
\<close>

theorem sync_attempt_timestamp_witness:
  "\<not> sync_lock (pair0 world0) \<and>
   autocommit_time cfg0 = Num 10 \<and>
   (10::real) \<le> 100 - last_sync_time (pair0 world0) \<and>
   last_sync_time (snd (sync (mock_adapter quiet) cfg0 100 (pair0 world0))) = 100 \<and>
   last_sync_time (snd (sync (mock_adapter pull_times_out) cfg0 100 (pair0 world0))) = 100 \<and>
   last_sync_time (snd (sync (mock_adapter push_fails) cfg0 100 (pair0 world0))) = 0"
proof -
  let ?s = "pair0 world0"
  let ?P = "\<lambda>b. pull_changes (mock_adapter b) cfg0 (?s\<lparr>sync_lock := True\<rparr>)"
  let ?C = "\<lambda>b. commit_and_push (mock_adapter b) cfg0
           (snd ((if fst (?P b) = Inr False
                  then logger INFO (''No new changes pulled for '' @ name cfg0)
                  else ret ()) (snd (?P b))))"
  have h1: "\<not> sync_lock ?s" by (simp add: pair0_def)
  have h2: "autocommit_time cfg0 = Num 10" by (simp add: cfg0_def)
  have h3: "(10::real) \<le> 100 - last_sync_time ?s" by (simp add: pair0_def)
  have t: "last_sync_time (snd (sync (mock_adapter b) cfg0 100 ?s)) =
           (if isl (fst (?P b)) \<or> isl (fst (?C b)) then last_sync_time ?s else 100)" for b
    using sync_attempt_timestamp[OF h1 h2 h3, where ad = "mock_adapter b" and rp = "fst (?P b)"
        and ?s1.0 = "snd (?P b)" and rc = "fst (?C b)" and ?s2.0 = "snd (?C b)", THEN conjunct2]
    by simp
  have "last_sync_time (snd (sync (mock_adapter quiet) cfg0 100 ?s)) = 100"
    unfolding t by (simp add: sync_unfold run_defs prog_defs mock_defs)
  moreover have "last_sync_time (snd (sync (mock_adapter pull_times_out) cfg0 100 ?s)) = 100"
    unfolding t by (simp add: sync_unfold run_defs prog_defs mock_defs pull_times_out_def timed_out_class)
  moreover have "last_sync_time (snd (sync (mock_adapter push_fails) cfg0 100 ?s)) = 0"
    unfolding t by (simp add: sync_unfold run_defs prog_defs mock_defs push_fails_def)
  ultimately show ?thesis using h1 h2 h3 by simp
qed
section \<open>\<^verbatim>\<open>_commit_and_push\<close>: errors and result\<close>

text \<open>
  Claim C3, as the code has it. \<^verbatim>\<open>_commit_and_push\<close> has no \<^verbatim>\<open>try\<close> of its own. Its
  result is decided by the outcomes \<open>o1\<close> to \<open>o7\<close> of the calls it makes, in order:
  staging, the diff against HEAD, then only when the diff is not empty the commit
  message and the commit, the read of the remote-tracking ref, the push, the second read
  of the ref. The first of these calls that raises ends \<^verbatim>\<open>_commit_and_push\<close> with that
  very error, whatever its class; a boolean is returned only when every call made
  returned. When \<^verbatim>\<open>_commit_and_push\<close> is the second step of an attempted \<^verbatim>\<open>sync\<close>
  cycle and raises \<open>e\<close>, it is \<^verbatim>\<open>sync\<close> that catches \<open>e\<close>: \<^verbatim>\<open>sync\<close> returns normally,
  in the state \<^verbatim>\<open>_commit_and_push\<close> left plus the log line
  \<^verbatim>\<open>Sync error for <name>: <e>\<close> at level ERROR, with the lock released.
\<close>

theorem commit_and_push_propagates:
  assumes "index_add ad ''*'' (repo s) = (o1, r1)"
    and "index_diff ad ''HEAD'' r1 = (o2, r2)"
    and "format_commit_message ad (commit_message_template cfg) r2 = (o3, r3)"
    and "\<forall>commit_message. o3 = Inr commit_message \<longrightarrow>
           index_commit ad commit_message r3 = (o4, r4)"
    and "remote_ref ad (branch cfg) (if o2 = Inr [] then r2 else r4) = (o5, r5)"
    and "remote_push ad (branch cfg) r5 = (o6, r6)"
    and "remote_ref ad (branch cfg) r6 = (o7, r7)"
  shows "fst (commit_and_push ad cfg s) =
           (case o1 of Inl e \<Rightarrow> Inl e | Inr u1 \<Rightarrow>
            case o2 of Inl e \<Rightarrow> Inl e | Inr d \<Rightarrow>
            case (if d = [] then Inr ()
                  else case o3 of Inl e \<Rightarrow> Inl e | Inr commit_message \<Rightarrow> o4) of
              Inl e \<Rightarrow> Inl e | Inr u2 \<Rightarrow>
            case o5 of Inl e \<Rightarrow> Inl e | Inr old_remote_head \<Rightarrow>
            case o6 of Inl e \<Rightarrow> Inl e | Inr u3 \<Rightarrow>
            case o7 of Inl e \<Rightarrow> Inl e | Inr new_remote_head \<Rightarrow>
              Inr (d \<noteq> [] \<or> old_remote_head \<noteq> new_remote_head)) \<and>
         (\<not> sync_lock s0 \<and> autocommit_time cfg = Num a \<and> a \<le> t - last_sync_time s0 \<and>
          pull_changes ad cfg (s0\<lparr>sync_lock := True\<rparr>) = (Inr pulled, s1) \<and>
          snd ((if \<not> pulled then logger INFO (''No new changes pulled for '' @ name cfg)
                else ret ()) s1) = s \<and>
          commit_and_push ad cfg s = (Inl e, s2) \<longrightarrow>
          sync ad cfg t s0 =
            (Inr (),
             s2\<lparr>logs := logs s2 @ [(ERROR, ''Sync error for '' @ name cfg @ '': '' @ str e)],
                sync_lock := False\<rparr>))"
proof
  show "fst (commit_and_push ad cfg s) =
           (case o1 of Inl e \<Rightarrow> Inl e | Inr u1 \<Rightarrow>
            case o2 of Inl e \<Rightarrow> Inl e | Inr d \<Rightarrow>
            case (if d = [] then Inr ()
                  else case o3 of Inl e \<Rightarrow> Inl e | Inr commit_message \<Rightarrow> o4) of
              Inl e \<Rightarrow> Inl e | Inr u2 \<Rightarrow>
            case o5 of Inl e \<Rightarrow> Inl e | Inr old_remote_head \<Rightarrow>
            case o6 of Inl e \<Rightarrow> Inl e | Inr u3 \<Rightarrow>
            case o7 of Inl e \<Rightarrow> Inl e | Inr new_remote_head \<Rightarrow>
              Inr (d \<noteq> [] \<or> old_remote_head \<noteq> new_remote_head))"
    using assms
    by (auto simp: commit_and_push_def bnd_def ret_def logger_def adapter_call_def
        library_call_def split: sum.splits)
next
  show "\<not> sync_lock s0 \<and> autocommit_time cfg = Num a \<and> a \<le> t - last_sync_time s0 \<and>
          pull_changes ad cfg (s0\<lparr>sync_lock := True\<rparr>) = (Inr pulled, s1) \<and>
          snd ((if \<not> pulled then logger INFO (''No new changes pulled for '' @ name cfg)
                else ret ()) s1) = s \<and>
          commit_and_push ad cfg s = (Inl e, s2) \<longrightarrow>
          sync ad cfg t s0 =
            (Inr (),
             s2\<lparr>logs := logs s2 @ [(ERROR, ''Sync error for '' @ name cfg @ '': '' @ str e)],
                sync_lock := False\<rparr>)"
  proof
    assume h: "\<not> sync_lock s0 \<and> autocommit_time cfg = Num a \<and> a \<le> t - last_sync_time s0 \<and>
          pull_changes ad cfg (s0\<lparr>sync_lock := True\<rparr>) = (Inr pulled, s1) \<and>
          snd ((if \<not> pulled then logger INFO (''No new changes pulled for '' @ name cfg)
                else ret ()) s1) = s \<and>
          commit_and_push ad cfg s = (Inl e, s2)"
    then have el: "elapsed_less (t - last_sync_time s0) (autocommit_time cfg) = Inr False"
      by (simp add: elapsed_less_def)
    from h have c: "commit_and_push ad cfg
           (snd ((if Inr pulled = (Inr False :: exn + bool)
                  then logger INFO (''No new changes pulled for '' @ name cfg)
                  else ret ()) s1)) = (Inl e, s2)"
      by auto
    from h have l: "\<not> sync_lock s0" and p: "pull_changes ad cfg (s0\<lparr>sync_lock := True\<rparr>) = (Inr pulled, s1)"
      by simp_all
    from sync_attempt_state[OF l el p c]
    show "sync ad cfg t s0 =
            (Inr (),
             s2\<lparr>logs := logs s2 @ [(ERROR, ''Sync error for '' @ name cfg @ '': '' @ str e)],
                sync_lock := False\<rparr>)"
      by simp
  qed
qed

text \<open>
  Claim C3 as stated fails: with a remote that cannot be reached, the error of the push
  is what \<^verbatim>\<open>_commit_and_push\<close> gives its caller, after four adapter calls.
\<close>

theorem commit_and_push_propagates_push_error:
  "commit_and_push (mock_adapter push_fails) cfg0 (pair0 world0) =
     (Inl (GitCommandError ''could not read from remote''),
      (pair0 world0)\<lparr>calls := [IndexAdd ''*'', IndexDiff ''HEAD'', RemoteRef ''main'', Push ''main'']\<rparr>)"
  by (simp add: run_defs prog_defs mock_defs push_fails_def)

text \<open>
  The amended statement at a cycle that commits a new file and then cannot reach the
  remote: the push error leaves \<^verbatim>\<open>_commit_and_push\<close> and is logged by \<^verbatim>\<open>sync\<close>.
\<close>

theorem commit_and_push_propagates_witness:
  "\<not> sync_lock (pair0 drafted) \<and>
   autocommit_time cfg0 = Num 10 \<and>
   (10::real) \<le> 100 - last_sync_time (pair0 drafted) \<and>
   fst (pull_changes (mock_adapter push_fails) cfg0 ((pair0 drafted)\<lparr>sync_lock := True\<rparr>)) = Inr False \<and>
   fst (sync (mock_adapter push_fails) cfg0 100 (pair0 drafted)) = Inr () \<and>
   logs (snd (sync (mock_adapter push_fails) cfg0 100 (pair0 drafted))) =
     [(INFO, ''No new changes pulled for docs''),
      (INFO, ''Committed changes for docs: Sync: 2026-01-01 00:00:00''),
      (ERROR, ''Sync error for docs: could not read from remote'')] \<and>
   \<not> sync_lock (snd (sync (mock_adapter push_fails) cfg0 100 (pair0 drafted)))"
proof -
  let ?ad = "mock_adapter push_fails"
  let ?e = "GitCommandError ''could not read from remote''"
  let ?P = "pull_changes ?ad cfg0 ((pair0 drafted)\<lparr>sync_lock := True\<rparr>)"
  let ?s = "snd ((if \<not> False then logger INFO (''No new changes pulled for '' @ name cfg0)
                  else ret ()) (snd ?P))"
  let ?a1 = "index_add ?ad ''*'' (repo ?s)"
  let ?a2 = "index_diff ?ad ''HEAD'' (snd ?a1)"
  let ?a3 = "format_commit_message ?ad (commit_message_template cfg0) (snd ?a2)"
  let ?a4 = "index_commit ?ad ''Sync: 2026-01-01 00:00:00'' (snd ?a3)"
  let ?a5 = "remote_ref ?ad (branch cfg0) (if fst ?a2 = Inr [] then snd ?a2 else snd ?a4)"
  let ?a6 = "remote_push ?ad (branch cfg0) (snd ?a5)"
  let ?a7 = "remote_ref ?ad (branch cfg0) (snd ?a6)"
  let ?C = "commit_and_push ?ad cfg0 ?s"
  have l: "\<not> sync_lock (pair0 drafted)" by (simp add: pair0_def)
  have a: "autocommit_time cfg0 = Num 10" by (simp add: cfg0_def)
  have t: "(10::real) \<le> 100 - last_sync_time (pair0 drafted)" by (simp add: pair0_def)
  have p: "fst ?P = Inr False"
    by (simp add: run_defs prog_defs mock_defs push_fails_def drafted_def)
  have h1: "?a1 = (fst ?a1, snd ?a1)" and h2: "?a2 = (fst ?a2, snd ?a2)"
    and h3: "?a3 = (fst ?a3, snd ?a3)" and h5: "?a5 = (fst ?a5, snd ?a5)"
    and h6: "?a6 = (fst ?a6, snd ?a6)" and h7: "?a7 = (fst ?a7, snd ?a7)"
    by simp_all
  have h4: "\<forall>commit_message. fst ?a3 = Inr commit_message \<longrightarrow>
              index_commit ?ad commit_message (snd ?a3) = (fst ?a4, snd ?a4)"
    by (simp add: mock_adapter_def cfg0_def)
  note th = commit_and_push_propagates[OF h1 h2 h3 h4 h5 h6 h7, where ?s0.0 = "pair0 drafted"
      and a = 10 and t = 100 and pulled = False and ?s1.0 = "snd ?P" and e = ?e
      and ?s2.0 = "snd ?C"]
  from th[THEN conjunct1] have c: "fst ?C = Inl ?e"
    by (simp add: run_defs prog_defs mock_defs push_fails_def drafted_def)
  have pe: "?P = (Inr False, snd ?P)" using p by (simp add: prod_eq_iff)
  have ce: "?C = (Inl ?e, snd ?C)" using c by (simp add: prod_eq_iff)
  from th[THEN conjunct2] l a t pe ce
  have s: "sync ?ad cfg0 100 (pair0 drafted) =
          (Inr (), (snd ?C)\<lparr>logs := logs (snd ?C) @
               [(ERROR, ''Sync error for '' @ name cfg0 @ '': '' @ str ?e)], sync_lock := False\<rparr>)"
    by blast
  have lg: "logs (snd ?C) = [(INFO, ''No new changes pulled for docs''),
      (INFO, ''Committed changes for docs: Sync: 2026-01-01 00:00:00'')]"
    by (simp add: run_defs prog_defs mock_defs push_fails_def drafted_def)
  have n: "name cfg0 = ''docs''" by (simp add: cfg0_def)
  from l a t p lg show ?thesis unfolding s by (simp add: n)
qed

text \<open>
  Claim C4, as the code has it. When its calls return, \<^verbatim>\<open>_commit_and_push\<close> returns
  true iff it committed (the staged tree differed from HEAD) or the remote-tracking ref
  read after the push differs from the one read before it. A ref that is absent is read
  as \<^verbatim>\<open>None\<close>: with nothing committed the result is false when the ref is absent
  before and after the push, and true when the push makes the ref appear. A commit call
  is made exactly when the staged tree differed from HEAD.
\<close>

theorem commit_and_push_result:
  assumes "index_add ad ''*'' (repo s) = (Inr u1, r1)"
    and "index_diff ad ''HEAD'' r1 = (Inr d, r2)"
    and "d \<noteq> [] \<Longrightarrow>
           format_commit_message ad (commit_message_template cfg) r2 = (Inr msg, r2') \<and>
           index_commit ad msg r2' = (Inr u2, r3)"
    and "d = [] \<Longrightarrow> r3 = r2"
    and "remote_ref ad (branch cfg) r3 = (Inr old_remote_head, r4)"
    and "remote_push ad (branch cfg) r4 = (Inr u3, r5)"
    and "remote_ref ad (branch cfg) r5 = (Inr new_remote_head, r6)"
  shows "fst (commit_and_push ad cfg s) = Inr (d \<noteq> [] \<or> old_remote_head \<noteq> new_remote_head) \<and>
         (IndexCommit msg \<in> set (new_calls (commit_and_push ad cfg) s) \<longleftrightarrow> d \<noteq> [])"
proof (cases "d = []")
  case True
  with assms show ?thesis
    by (simp add: commit_and_push_def bnd_def ret_def logger_def adapter_call_def
        library_call_def new_calls_def)
next
  case False
  with assms show ?thesis
    by (simp add: commit_and_push_def bnd_def ret_def logger_def adapter_call_def
        library_call_def new_calls_def)
qed

text \<open>
  Claim C4 as stated fails: the branch is not yet known to the remote, nothing is staged
  and no commit is made, the push creates the remote-tracking ref, and the result is
  true.
\<close>

theorem commit_and_push_first_push_reports_true:
  "remote_ref (mock_adapter quiet) (branch cfg0) unpublished = (Inr None, unpublished) \<and>
   index_diff (mock_adapter quiet) ''HEAD'' unpublished = (Inr [], unpublished) \<and>
   fst (commit_and_push (mock_adapter quiet) cfg0 (pair0 unpublished)) = Inr True \<and>
   calls (snd (commit_and_push (mock_adapter quiet) cfg0 (pair0 unpublished))) =
     [IndexAdd ''*'', IndexDiff ''HEAD'', RemoteRef ''main'', Push ''main'', RemoteRef ''main'']"
  by (simp add: run_defs prog_defs mock_defs unpublished_def)

text \<open>The amended statement at a run that commits a new file and at one with nothing to do.\<close>

theorem commit_and_push_result_witness:
  "fst (commit_and_push (mock_adapter quiet) cfg0 (pair0 drafted)) = Inr True \<and>
   IndexCommit ''Sync: 2026-01-01 00:00:00''
     \<in> set (new_calls (commit_and_push (mock_adapter quiet) cfg0) (pair0 drafted)) \<and>
   fst (commit_and_push (mock_adapter quiet) cfg0 (pair0 world0)) = Inr False \<and>
   IndexCommit ''Sync: 2026-01-01 00:00:00''
     \<notin> set (new_calls (commit_and_push (mock_adapter quiet) cfg0) (pair0 world0))"
proof -
  let ?ad = "mock_adapter quiet"
  let ?msg = "''Sync: 2026-01-01 00:00:00''"
  let ?r1 = "drafted\<lparr>w_staged := [''a.txt''], w_modified := [], w_untracked := []\<rparr>"
  let ?r3 = "?r1\<lparr>w_head := Some ?msg, w_history := [?msg, ''c0''], w_tree := [''a.txt''],
                   w_staged := []\<rparr>"
  let ?r5 = "?r3\<lparr>w_remote_tip := Some ?msg\<rparr>"
  have a: "index_add ?ad ''*'' (repo (pair0 drafted)) = (Inr (), ?r1)"
    and b: "index_diff ?ad ''HEAD'' ?r1 = (Inr [''a.txt''], ?r1)"
    and c: "[''a.txt''] \<noteq> [] \<Longrightarrow>
         format_commit_message ?ad (commit_message_template cfg0) ?r1 = (Inr ?msg, ?r1) \<and>
         index_commit ?ad ?msg ?r1 = (Inr (), ?r3)"
    and d: "[''a.txt''] = [] \<Longrightarrow> ?r3 = ?r1"
    and e: "remote_ref ?ad (branch cfg0) ?r3 = (Inr (Some ''c0''), ?r3)"
    and f: "remote_push ?ad (branch cfg0) ?r3 = (Inr (), ?r5)"
    and g: "remote_ref ?ad (branch cfg0) ?r5 = (Inr (Some ?msg), ?r5)"
    by (simp_all add: mock_defs drafted_def)
  have a0: "index_add ?ad ''*'' (repo (pair0 world0)) = (Inr (), world0)"
    and b0: "index_diff ?ad ''HEAD'' world0 = (Inr [], world0)"
    and c0: "([]::string list) \<noteq> [] \<Longrightarrow>
         format_commit_message ?ad (commit_message_template cfg0) world0 = (Inr ?msg, world0) \<and>
         index_commit ?ad ?msg world0 = (Inr (), world0)"
    and d0: "([]::string list) = [] \<Longrightarrow> world0 = world0"
    and e0: "remote_ref ?ad (branch cfg0) world0 = (Inr (Some ''c0''), world0)"
    and f0: "remote_push ?ad (branch cfg0) world0 = (Inr (), world0)"
    by (simp_all add: mock_defs)
  from commit_and_push_result[OF a b c d e f g] commit_and_push_result[OF a0 b0 c0 d0 e0 f0 e0]
  show ?thesis by simp
qed
section \<open>\<^verbatim>\<open>_pull_changes\<close>: what is caught and what is returned\<close>

lemma no_git_error_ret: "no_git_error (ret v)"
  by (simp add: no_git_error_def ret_def)

lemma no_git_error_logger: "no_git_error (logger lv msg)"
  by (simp add: no_git_error_def logger_def)

lemma no_git_error_bnd:
  assumes "no_git_error m" and "\<And>v. no_git_error (f v)"
  shows "no_git_error (bnd m f)"
proof -
  have "case fst (bnd m f s) of Inl e \<Rightarrow> \<not> is_GitCommandError e | Inr v \<Rightarrow> True" for s
  proof (cases "m s")
    case (Pair r s1)
    show ?thesis
    proof (cases r)
      case (Inl e)
      with Pair assms(1) show ?thesis
        by (auto simp: bnd_def no_git_error_def dest: spec[of _ s])
    next
      case (Inr v)
      with Pair assms(2)[of v] show ?thesis
        by (auto simp: bnd_def no_git_error_def dest: spec[of _ s1])
    qed
  qed
  then show ?thesis by (simp add: no_git_error_def)
qed

lemma no_git_error_try_except:
  assumes "\<And>e. no_git_error (h e)"
  shows "no_git_error (try_except m is_GitCommandError h)"
proof -
  have "case fst (try_except m is_GitCommandError h s) of
          Inl e \<Rightarrow> \<not> is_GitCommandError e | Inr v \<Rightarrow> True" for s
  proof (cases "m s")
    case (Pair r s1)
    show ?thesis
    proof (cases r)
      case (Inl e)
      with Pair assms[of e] show ?thesis
        by (auto simp: try_except_def no_git_error_def dest: spec[of _ s1])
    next
      case (Inr v)
      with Pair show ?thesis by (simp add: try_except_def)
    qed
  qed
  then show ?thesis by (simp add: no_git_error_def)
qed

lemma no_git_error_if: "no_git_error m \<Longrightarrow> no_git_error n \<Longrightarrow> no_git_error (if b then m else n)"
  by simp

lemmas no_git_error_intros = no_git_error_bnd no_git_error_try_except no_git_error_if
  no_git_error_ret no_git_error_logger

lemma no_git_error_pull_recover: "no_git_error (pull_recover ad cfg e)"
  unfolding pull_recover_def by (intro no_git_error_intros)

lemma no_git_error_pull_changes: "no_git_error (pull_changes ad cfg)"
  unfolding pull_changes_def pull_except_def
  by (intro no_git_error_intros no_git_error_pull_recover)

lemma pull_changes_handled:
  assumes "pull_try ad cfg s = (Inl e, s1)" and "is_GitCommandError e"
  shows "pull_changes ad cfg s =
           pull_recover ad cfg e
             (s1\<lparr>logs := logs s1 @ [(WARNING, ''Pull failed for '' @ name cfg @ '': '' @ str e)]\<rparr>)"
  using assms by (simp add: pull_changes_def try_except_def pull_except_def bnd_def logger_def)

lemma pull_changes_unhandled:
  assumes "pull_try ad cfg s = (r, s1)" and "case r of Inl e \<Rightarrow> \<not> is_GitCommandError e | Inr v \<Rightarrow> True"
  shows "pull_changes ad cfg s = (r, s1)"
  using assms by (cases r) (simp_all add: pull_changes_def try_except_def)

lemma bnd_not_False:
  assumes "\<And>v s. fst (f v s) \<noteq> Inr False"
  shows "fst (bnd m f s) \<noteq> Inr False"
proof (cases "m s")
  case (Pair r s1)
  with assms show ?thesis by (cases r) (simp_all add: bnd_def)
qed

lemma ret_True_not_False: "fst (ret True s) \<noteq> Inr False"
  by (simp add: ret_def)

lemma recovery_False_logged:
  assumes "\<And>s. fst (X s) \<noteq> Inr False"
    and "fst (try_except X is_GitCommandError
               (\<lambda>err. bnd (logger ERROR (msg err)) (\<lambda>_. ret False)) s) = Inr False"
  shows "\<exists>m. last (logs (snd (try_except X is_GitCommandError
               (\<lambda>err. bnd (logger ERROR (msg err)) (\<lambda>_. ret False)) s))) = (ERROR, m)"
proof (cases "X s")
  case (Pair r s1)
  show ?thesis
  proof (cases r)
    case (Inl e)
    with Pair assms(2) show ?thesis
      by (cases "is_GitCommandError e")
        (simp_all add: try_except_def bnd_def logger_def ret_def)
  next
    case (Inr v)
    with Pair assms(1)[of s] assms(2) show ?thesis by (simp add: try_except_def)
  qed
qed

lemma handler_run:
  assumes "X s = (rr, s2)"
  shows "try_except X is_GitCommandError
           (\<lambda>err. bnd (logger ERROR (msg err)) (\<lambda>_. ret False)) s =
         (case rr of
            Inl x \<Rightarrow> if is_GitCommandError x
                     then (Inr False, s2\<lparr>logs := logs s2 @ [(ERROR, msg x)]\<rparr>)
                     else (Inl x, s2)
          | Inr b \<Rightarrow> (Inr b, s2))"
  using assms by (cases rr) (simp_all add: try_except_def bnd_def logger_def ret_def)

lemma recover_conflict_True: "recover_conflict ad cfg s = (Inr b, s2) \<Longrightarrow> b"
  using bnd_not_False[of "\<lambda>_. bnd (pull_origin ad cfg) (\<lambda>_.
          bnd (logger INFO (''Successfully resolved conflicts for '' @ name cfg)) (\<lambda>_. ret True))"
        "reset_to_remote ad cfg" s, OF bnd_not_False, OF bnd_not_False, OF ret_True_not_False]
  by (cases b) (simp_all add: recover_conflict_def)

lemma recover_untracked_True: "recover_untracked ad cfg s = (Inr b, s2) \<Longrightarrow> b"
proof -
  have "fst (recover_untracked ad cfg s) \<noteq> Inr False"
    unfolding recover_untracked_def by (intro bnd_not_False ret_True_not_False)
  then show "recover_untracked ad cfg s = (Inr b, s2) \<Longrightarrow> b" by (cases b) simp_all
qed

lemma recover_other_True: "recover_other ad cfg s = (Inr b, s2) \<Longrightarrow> b"
proof -
  have "fst (recover_other ad cfg s) \<noteq> Inr False"
    unfolding recover_other_def by (intro bnd_not_False ret_True_not_False)
  then show "recover_other ad cfg s = (Inr b, s2) \<Longrightarrow> b" by (cases b) simp_all
qed

lemma pull_recover_conflict:
  assumes "sublist ''merge conflict'' (str_lower ad (str e))"
    and "adapter_call MergeAbort (git_merge_abort ad) s = (ra, sa)"
    and "\<forall>x. ra = Inl x \<longrightarrow> is_GitCommandError x"
    and "recover_conflict ad cfg sa = (rr, s2)"
  shows "pull_recover ad cfg e s =
           (case rr of
              Inl x \<Rightarrow>
                if is_GitCommandError x
                then (Inr False,
                      s2\<lparr>logs := logs s2 @
                            [(ERROR, ''Failed to resolve conflicts for '' @ name cfg @ '': '' @ str x)]\<rparr>)
                else (Inl x, s2)
            | Inr b \<Rightarrow> (Inr True, s2))"
proof -
  from assms(2,3)
  have ab: "try_except (adapter_call MergeAbort (git_merge_abort ad)) is_GitCommandError
              (\<lambda>_. ret ()) s = (Inr (), sa)"
    by (cases ra) (simp_all add: try_except_def ret_def)
  show ?thesis
  proof (cases rr)
    case (Inl x)
    with assms(1) show ?thesis
      by (simp add: pull_recover_def bnd_def ab handler_run[where X = "recover_conflict ad cfg", OF assms(4)])
  next
    case (Inr b)
    with assms(4) have b by (auto dest: recover_conflict_True)
    with Inr assms(1) show ?thesis
      by (simp add: pull_recover_def bnd_def ab handler_run[where X = "recover_conflict ad cfg", OF assms(4)])
  qed
qed

lemma pull_recover_conflict_abort_raises:
  assumes "sublist ''merge conflict'' (str_lower ad (str e))"
    and "adapter_call MergeAbort (git_merge_abort ad) s = (Inl x, sa)"
    and "\<not> is_GitCommandError x"
  shows "pull_recover ad cfg e s = (Inl x, sa)"
  using assms by (simp add: pull_recover_def bnd_def try_except_def)

lemma pull_recover_untracked:
  assumes "\<not> sublist ''merge conflict'' (str_lower ad (str e))"
    and "sublist ''untracked working tree files'' (str_lower ad (str e))"
    and "recover_untracked ad cfg s = (rr, s2)"
  shows "pull_recover ad cfg e s =
           (case rr of
              Inl x \<Rightarrow>
                if is_GitCommandError x
                then (Inr False,
                      s2\<lparr>logs := logs s2 @
                            [(ERROR, ''Failed to resolve untracked files for '' @ name cfg @ '': '' @ str x)]\<rparr>)
                else (Inl x, s2)
            | Inr b \<Rightarrow> (Inr True, s2))"
proof (cases rr)
  case (Inl x)
  with assms(1,2) show ?thesis
    by (simp add: pull_recover_def handler_run[where X = "recover_untracked ad cfg", OF assms(3)])
next
  case (Inr b)
  with assms(3) have b by (auto dest: recover_untracked_True)
  with Inr assms(1,2) show ?thesis
    by (simp add: pull_recover_def handler_run[where X = "recover_untracked ad cfg", OF assms(3)])
qed

lemma pull_recover_other:
  assumes "\<not> sublist ''merge conflict'' (str_lower ad (str e))"
    and "\<not> sublist ''untracked working tree files'' (str_lower ad (str e))"
    and "recover_other ad cfg s = (rr, s2)"
  shows "pull_recover ad cfg e s =
           (case rr of
              Inl x \<Rightarrow>
                if is_GitCommandError x
                then (Inr False,
                      s2\<lparr>logs := logs s2 @
                            [(ERROR, ''Failed to reset '' @ name cfg @ '' to remote state'')]\<rparr>)
                else (Inl x, s2)
            | Inr b \<Rightarrow> (Inr True, s2))"
proof (cases rr)
  case (Inl x)
  with assms(1,2) show ?thesis
    by (simp add: pull_recover_def handler_run[where X = "recover_other ad cfg", OF assms(3)])
next
  case (Inr b)
  with assms(3) have b by (auto dest: recover_other_True)
  with Inr assms(1,2) show ?thesis
    by (simp add: pull_recover_def handler_run[where X = "recover_other ad cfg", OF assms(3)])
qed

lemma pull_recover_False_logged:
  assumes "fst (pull_recover ad cfg e s) = Inr False"
  shows "\<exists>m. last (logs (snd (pull_recover ad cfg e s))) = (ERROR, m)"
proof -
  consider (conflict) "sublist ''merge conflict'' (str_lower ad (str e))"
    | (untracked) "\<not> sublist ''merge conflict'' (str_lower ad (str e))"
        "sublist ''untracked working tree files'' (str_lower ad (str e))"
    | (other) "\<not> sublist ''merge conflict'' (str_lower ad (str e))"
        "\<not> sublist ''untracked working tree files'' (str_lower ad (str e))"
    by blast
  then show ?thesis
  proof cases
    case conflict
    let ?abort = "try_except (adapter_call MergeAbort (git_merge_abort ad))
                    is_GitCommandError (\<lambda>_. ret ())"
    obtain r s1 where a: "?abort s = (r, s1)" by (cases "?abort s")
    show ?thesis
    proof (cases r)
      case (Inl x)
      with a conflict assms show ?thesis by (simp add: pull_recover_def recover_conflict_def bnd_def)
    next
      case (Inr u)
      with a conflict assms show ?thesis
        by (simp add: pull_recover_def recover_conflict_def bnd_def)
          (rule recovery_False_logged, intro bnd_not_False ret_True_not_False, assumption)
    qed
  next
    case untracked
    with assms show ?thesis
      by (simp add: pull_recover_def recover_untracked_def recover_other_def)
        (rule recovery_False_logged, intro bnd_not_False ret_True_not_False, assumption)
  next
    case other
    with assms show ?thesis
      by (simp add: pull_recover_def recover_untracked_def recover_other_def)
        (rule recovery_False_logged, intro bnd_not_False ret_True_not_False, assumption)
  qed
qed



text \<open>
  Claim C2, as the code has it. The only handler of \<^verbatim>\<open>_pull_changes\<close> is for
  \<open>GitCommandError\<close>. No \<open>GitCommandError\<close> is re-raised: one raised by the body (merge
  conflict, untracked-file collision or any other) is caught and logged as a
  ``Pull failed'' warning, and \<^verbatim>\<open>_pull_changes\<close> goes on with the recovery branch
  chosen by the lower-cased text of the error; the warning stays in the log. A
  \<open>GitCommandError\<close> raised by the recovery steps is caught too and logged at level ERROR,
  and the result is then \<^verbatim>\<open>False\<close>; a \<^verbatim>\<open>False\<close> after a caught failure always has such
  an error as the last log entry. An exception of any other class, raised by the body,
  by \<^verbatim>\<open>merge --abort\<close> or by the recovery steps, is not caught and leaves
  \<^verbatim>\<open>_pull_changes\<close> unchanged, and a result returned by the body is returned as it
  is. (A \<open>GitCommandError\<close> of \<^verbatim>\<open>merge --abort\<close> is ignored. When the recovery steps all
  return, the code returns \<^verbatim>\<open>True\<close>, although the first pull failed.)
\<close>

theorem pull_changes_catches_git_errors:
  "(\<forall>x. fst (pull_changes ad cfg s) = Inl x \<longrightarrow> \<not> is_GitCommandError x) \<and>
   (pull_try ad cfg s = (r, s1) \<and> (\<forall>x. r = Inl x \<longrightarrow> \<not> is_GitCommandError x) \<longrightarrow>
      pull_changes ad cfg s = (r, s1)) \<and>
   (pull_try ad cfg s = (Inl e, s1) \<and> is_GitCommandError e \<longrightarrow>
      pull_changes ad cfg s =
        pull_recover ad cfg e
          (s1\<lparr>logs := logs s1 @ [(WARNING, ''Pull failed for '' @ name cfg @ '': '' @ str e)]\<rparr>) \<and>
      (WARNING, ''Pull failed for '' @ name cfg @ '': '' @ str e)
        \<in> set (logs (snd (pull_changes ad cfg s))) \<and>
      (fst (pull_changes ad cfg s) = Inr False \<longrightarrow>
        (\<exists>m. last (logs (snd (pull_changes ad cfg s))) = (ERROR, m)))) \<and>
   (sublist ''merge conflict'' (str_lower ad (str e)) \<and>
    adapter_call MergeAbort (git_merge_abort ad) s' = (Inl x, sa) \<and> \<not> is_GitCommandError x \<longrightarrow>
      pull_recover ad cfg e s' = (Inl x, sa)) \<and>
   (sublist ''merge conflict'' (str_lower ad (str e)) \<and>
    adapter_call MergeAbort (git_merge_abort ad) s' = (ra, sa) \<and>
    (\<forall>x. ra = Inl x \<longrightarrow> is_GitCommandError x) \<and>
    recover_conflict ad cfg sa = (rr, s2) \<longrightarrow>
      pull_recover ad cfg e s' =
        (case rr of
           Inl x \<Rightarrow>
             if is_GitCommandError x
             then (Inr False,
                   s2\<lparr>logs := logs s2 @
                         [(ERROR, ''Failed to resolve conflicts for '' @ name cfg @ '': '' @ str x)]\<rparr>)
             else (Inl x, s2)
         | Inr b \<Rightarrow> (Inr True, s2))) \<and>
   (\<not> sublist ''merge conflict'' (str_lower ad (str e)) \<and>
    sublist ''untracked working tree files'' (str_lower ad (str e)) \<and>
    recover_untracked ad cfg s' = (rr, s2) \<longrightarrow>
      pull_recover ad cfg e s' =
        (case rr of
           Inl x \<Rightarrow>
             if is_GitCommandError x
             then (Inr False,
                   s2\<lparr>logs := logs s2 @
                         [(ERROR, ''Failed to resolve untracked files for '' @ name cfg @ '': '' @ str x)]\<rparr>)
             else (Inl x, s2)
         | Inr b \<Rightarrow> (Inr True, s2))) \<and>
   (\<not> sublist ''merge conflict'' (str_lower ad (str e)) \<and>
    \<not> sublist ''untracked working tree files'' (str_lower ad (str e)) \<and>
    recover_other ad cfg s' = (rr, s2) \<longrightarrow>
      pull_recover ad cfg e s' =
        (case rr of
           Inl x \<Rightarrow>
             if is_GitCommandError x
             then (Inr False,
                   s2\<lparr>logs := logs s2 @
                         [(ERROR, ''Failed to reset '' @ name cfg @ '' to remote state'')]\<rparr>)
             else (Inl x, s2)
         | Inr b \<Rightarrow> (Inr True, s2)))"
proof (intro conjI)
  show "\<forall>x. fst (pull_changes ad cfg s) = Inl x \<longrightarrow> \<not> is_GitCommandError x"
  proof (intro allI impI)
    fix x
    assume "fst (pull_changes ad cfg s) = Inl x"
    with no_git_error_pull_changes[of ad cfg] show "\<not> is_GitCommandError x"
      by (auto simp: no_git_error_def dest: spec[of _ s])
  qed
next
  show "pull_try ad cfg s = (r, s1) \<and> (\<forall>x. r = Inl x \<longrightarrow> \<not> is_GitCommandError x) \<longrightarrow>
      pull_changes ad cfg s = (r, s1)"
  proof
    assume h: "pull_try ad cfg s = (r, s1) \<and> (\<forall>x. r = Inl x \<longrightarrow> \<not> is_GitCommandError x)"
    then have "case r of Inl e \<Rightarrow> \<not> is_GitCommandError e | Inr v \<Rightarrow> True"
      by (simp split: sum.splits)
    with h show "pull_changes ad cfg s = (r, s1)" by (simp add: pull_changes_unhandled)
  qed
next
  let ?w = "(WARNING, ''Pull failed for '' @ name cfg @ '': '' @ str e)"
  let ?s1 = "s1\<lparr>logs := logs s1 @ [?w]\<rparr>"
  show "pull_try ad cfg s = (Inl e, s1) \<and> is_GitCommandError e \<longrightarrow>
      pull_changes ad cfg s = pull_recover ad cfg e ?s1 \<and>
      ?w \<in> set (logs (snd (pull_changes ad cfg s))) \<and>
      (fst (pull_changes ad cfg s) = Inr False \<longrightarrow>
        (\<exists>m. last (logs (snd (pull_changes ad cfg s))) = (ERROR, m)))"
  proof (intro impI conjI)
    assume h: "pull_try ad cfg s = (Inl e, s1) \<and> is_GitCommandError e"
    then show eq: "pull_changes ad cfg s = pull_recover ad cfg e ?s1"
      by (simp add: pull_changes_handled)
    have "prefix (logs ?s1) (logs (snd (pull_recover ad cfg e ?s1)))"
      using keeps_pull_recover[of ad cfg e] unfolding keeps_def by blast
    then have "set (logs ?s1) \<subseteq> set (logs (snd (pull_recover ad cfg e ?s1)))"
      by (rule set_mono_prefix)
    then show "?w \<in> set (logs (snd (pull_changes ad cfg s)))"
      unfolding eq by auto
    assume f: "fst (pull_changes ad cfg s) = Inr False"
    then show "\<exists>m. last (logs (snd (pull_changes ad cfg s))) = (ERROR, m)"
      unfolding eq by (rule pull_recover_False_logged)
  qed
next
  show "sublist ''merge conflict'' (str_lower ad (str e)) \<and>
    adapter_call MergeAbort (git_merge_abort ad) s' = (Inl x, sa) \<and> \<not> is_GitCommandError x \<longrightarrow>
      pull_recover ad cfg e s' = (Inl x, sa)"
    by (simp add: pull_recover_conflict_abort_raises)
next
  show "sublist ''merge conflict'' (str_lower ad (str e)) \<and>
    adapter_call MergeAbort (git_merge_abort ad) s' = (ra, sa) \<and>
    (\<forall>x. ra = Inl x \<longrightarrow> is_GitCommandError x) \<and>
    recover_conflict ad cfg sa = (rr, s2) \<longrightarrow>
      pull_recover ad cfg e s' =
        (case rr of
           Inl x \<Rightarrow>
             if is_GitCommandError x
             then (Inr False,
                   s2\<lparr>logs := logs s2 @
                         [(ERROR, ''Failed to resolve conflicts for '' @ name cfg @ '': '' @ str x)]\<rparr>)
             else (Inl x, s2)
         | Inr b \<Rightarrow> (Inr True, s2))"
    using pull_recover_conflict[of ad e s' ra sa cfg rr s2] by blast
next
  show "\<not> sublist ''merge conflict'' (str_lower ad (str e)) \<and>
    sublist ''untracked working tree files'' (str_lower ad (str e)) \<and>
    recover_untracked ad cfg s' = (rr, s2) \<longrightarrow>
      pull_recover ad cfg e s' =
        (case rr of
           Inl x \<Rightarrow>
             if is_GitCommandError x
             then (Inr False,
                   s2\<lparr>logs := logs s2 @
                         [(ERROR, ''Failed to resolve untracked files for '' @ name cfg @ '': '' @ str x)]\<rparr>)
             else (Inl x, s2)
         | Inr b \<Rightarrow> (Inr True, s2))"
    using pull_recover_untracked[of ad e cfg s' rr s2] by blast
next
  show "\<not> sublist ''merge conflict'' (str_lower ad (str e)) \<and>
    \<not> sublist ''untracked working tree files'' (str_lower ad (str e)) \<and>
    recover_other ad cfg s' = (rr, s2) \<longrightarrow>
      pull_recover ad cfg e s' =
        (case rr of
           Inl x \<Rightarrow>
             if is_GitCommandError x
             then (Inr False,
                   s2\<lparr>logs := logs s2 @
                         [(ERROR, ''Failed to reset '' @ name cfg @ '' to remote state'')]\<rparr>)
             else (Inl x, s2)
         | Inr b \<Rightarrow> (Inr True, s2))"
    using pull_recover_other[of ad e cfg s' rr s2] by blast
qed

text \<open>
  Claim C2 as stated fails: with a detached HEAD the \<^verbatim>\<open>TypeError\<close> of
  \<^verbatim>\<open>repo.active_branch\<close> is not a \<open>GitCommandError\<close>; it is raised after one adapter
  call and reaches the caller of \<^verbatim>\<open>_pull_changes\<close>, with nothing logged.
\<close>

theorem pull_changes_raises_on_detached_head:
  "pull_changes (mock_adapter detached_head) cfg0 (pair0 world0) =
     (Inl (TypeError ''HEAD is a detached symbolic reference''),
      (pair0 world0)\<lparr>calls := [IsDirty, ActiveBranch]\<rparr>)"
  by (simp add: run_defs prog_defs mock_defs detached_head_def)

text \<open>
  The amended statement at a pull that times out: with a reset that fails too the result
  is \<^verbatim>\<open>False\<close> and the error is logged; with a reset that succeeds the result is
  \<^verbatim>\<open>True\<close>.
\<close>

theorem pull_changes_catches_git_errors_witness:
  "pull_try (mock_adapter (reset_fails pull_times_out)) cfg0 (pair0 world0) =
     (Inl (GitCommandError ''Connection timed out''),
      (pair0 world0)\<lparr>repo := world0\<lparr>w_pulls := 1\<rparr>,
        calls := [IsDirty, ActiveBranch, HeadIsValid, HeadCommit,
                  Pull ''origin'' ''main'' pull_options]\<rparr>) \<and>
   is_GitCommandError (GitCommandError ''Connection timed out'') \<and>
   fst (pull_changes (mock_adapter (reset_fails pull_times_out)) cfg0 (pair0 world0)) = Inr False \<and>
   logs (snd (pull_changes (mock_adapter (reset_fails pull_times_out)) cfg0 (pair0 world0))) =
     [(WARNING, ''Pull failed for docs: Connection timed out''),
      (ERROR, ''Failed to reset docs to remote state'')] \<and>
   fst (pull_changes (mock_adapter pull_times_out) cfg0 (pair0 world0)) = Inr True \<and>
   calls (snd (pull_changes (mock_adapter pull_times_out) cfg0 (pair0 world0))) =
     [IsDirty, ActiveBranch, HeadIsValid, HeadCommit, Pull ''origin'' ''main'' pull_options,
      ResetHard ''origin/main'']"
proof -
  let ?e = "GitCommandError ''Connection timed out''"
  let ?s1 = "(pair0 world0)\<lparr>repo := world0\<lparr>w_pulls := 1\<rparr>,
        calls := [IsDirty, ActiveBranch, HeadIsValid, HeadCommit,
                  Pull ''origin'' ''main'' pull_options]\<rparr>"
  let ?w = "?s1\<lparr>logs := logs ?s1 @ [(WARNING, ''Pull failed for '' @ name cfg0 @ '': '' @ str ?e)]\<rparr>"
  have g: "is_GitCommandError ?e" by simp
  have other: "\<not> sublist ''merge conflict'' (str_lower (mock_adapter b) (str ?e))"
    "\<not> sublist ''untracked working tree files'' (str_lower (mock_adapter b) (str ?e))" for b
    by (simp_all add: str_lower_mock timed_out_class)
  have t: "pull_try (mock_adapter (reset_fails pull_times_out)) cfg0 (pair0 world0) = (Inl ?e, ?s1)"
    by (simp add: run_defs prog_defs mock_defs pull_times_out_def reset_fails_def)
  have t': "pull_try (mock_adapter pull_times_out) cfg0 (pair0 world0) = (Inl ?e, ?s1)"
    by (simp add: run_defs prog_defs mock_defs pull_times_out_def)
  let ?R = "recover_other (mock_adapter (reset_fails pull_times_out)) cfg0 ?w"
  let ?R' = "recover_other (mock_adapter pull_times_out) cfg0 ?w"
  have r: "?R = (Inl (GitCommandError ''unknown revision origin/main''),
                 ?w\<lparr>calls := calls ?w @ [ResetHard ''origin/main'']\<rparr>)"
    by (simp add: run_defs prog_defs mock_defs pull_times_out_def reset_fails_def)
  have r': "?R' = (Inr True, snd ?R')"
    by (simp add: run_defs prog_defs mock_defs pull_times_out_def prod_eq_iff)
  note th = pull_changes_catches_git_errors[where cfg = cfg0 and s = "pair0 world0"
      and e = ?e and ?s1.0 = ?s1 and s' = ?w]
  from th[where ad = "mock_adapter (reset_fails pull_times_out)"
      and rr = "Inl (GitCommandError ''unknown revision origin/main'')"
      and ?s2.0 = "?w\<lparr>calls := calls ?w @ [ResetHard ''origin/main'']\<rparr>"] t g other r
  have a: "pull_changes (mock_adapter (reset_fails pull_times_out)) cfg0 (pair0 world0) =
        (Inr False, ?w\<lparr>calls := calls ?w @ [ResetHard ''origin/main''],
                         logs := logs ?w @ [(ERROR, ''Failed to reset '' @ name cfg0 @ '' to remote state'')]\<rparr>)"
    by simp
  from th[where ad = "mock_adapter pull_times_out" and rr = "Inr True" and ?s2.0 = "snd ?R'"]
    t' g other r'
  have b: "pull_changes (mock_adapter pull_times_out) cfg0 (pair0 world0) = (Inr True, snd ?R')"
    by simp
  have c: "calls (snd ?R') = [IsDirty, ActiveBranch, HeadIsValid, HeadCommit,
      Pull ''origin'' ''main'' pull_options, ResetHard ''origin/main'']"
    by (simp add: run_defs prog_defs mock_defs pull_times_out_def)
  have n: "name cfg0 = ''docs''" by (simp add: cfg0_def)
  from t g c show ?thesis unfolding a b by (simp add: n pair0_def)
qed

section \<open>Recovery from a merge conflict\<close>

text \<open>
  Claim C7, as the code has it. The handler recognises a merge conflict by the text of
  the error: when the body of \<^verbatim>\<open>_pull_changes\<close> fails with a \<open>GitCommandError\<close> whose
  lower-cased text (\<^verbatim>\<open>str(e).lower()\<close>) contains ``merge conflict'', the handler calls
  \<^verbatim>\<open>merge --abort\<close> (a \<open>GitCommandError\<close> of it is ignored), then
  \<^verbatim>\<open>reset --hard origin/<branch>\<close>, and, if the reset returns, pulls once more.
  If the retried pull returns, the result is true and the success is logged. A
  \<open>GitCommandError\<close> of the reset or of the retried pull is logged as an error and the
  result is false; after a failed reset no pull is retried. An exception of another
  class from the reset or the retried pull is not caught. A conflict that git reports in
  other words does not take this branch.
\<close>

theorem pull_merge_conflict_recovery:
  assumes "pull_try ad cfg s = (Inl e, s1)" and "is_GitCommandError e"
    and "sublist ''merge conflict'' (str_lower ad (str e))"
    and "git_merge_abort ad (repo s1) = (ra, r2)"
    and "case ra of Inl x \<Rightarrow> is_GitCommandError x | Inr u \<Rightarrow> True"
    and "git_reset_hard ad (''origin/'' @ branch cfg) r2 = (rb, r3)"
    and "git_pull ad ''origin'' (branch cfg) pull_options r3 = (rc, r4)"
  shows "calls (snd (pull_changes ad cfg s)) =
           calls s1 @ [MergeAbort, ResetHard (''origin/'' @ branch cfg)] @
             (if isl rb then [] else [Pull ''origin'' (branch cfg) pull_options]) \<and>
         fst (pull_changes ad cfg s) =
           (case rb of
              Inl x \<Rightarrow> if is_GitCommandError x then Inr False else Inl x
            | Inr u \<Rightarrow>
                (case rc of
                   Inl y \<Rightarrow> if is_GitCommandError y then Inr False else Inl y
                 | Inr u \<Rightarrow> Inr True)) \<and>
         (\<forall>x. (rb = Inl x \<or> \<not> isl rb \<and> rc = Inl x) \<and> is_GitCommandError x \<longrightarrow>
              last (logs (snd (pull_changes ad cfg s))) =
                (ERROR, ''Failed to resolve conflicts for '' @ name cfg @ '': '' @ str x)) \<and>
         (\<not> isl rb \<and> \<not> isl rc \<longrightarrow>
              last (logs (snd (pull_changes ad cfg s))) =
                (INFO, ''Successfully resolved conflicts for '' @ name cfg))"
proof -
  let ?w = "(WARNING, ''Pull failed for '' @ name cfg @ '': '' @ str e)"
  let ?s1 = "s1\<lparr>logs := logs s1 @ [?w]\<rparr>"
  let ?s2 = "?s1\<lparr>repo := r2, calls := calls s1 @ [MergeAbort]\<rparr>"
  have eq: "pull_changes ad cfg s = pull_recover ad cfg e ?s1"
    using assms(1,2) by (rule pull_changes_handled)
  have abort: "try_except (adapter_call MergeAbort (git_merge_abort ad))
                 is_GitCommandError (\<lambda>_. ret ()) ?s1 = (Inr (), ?s2)"
    using assms(4,5) by (cases ra) (simp_all add: try_except_def adapter_call_def ret_def)
  show ?thesis
  proof (cases rb)
    case (Inl x)
    with assms(3,6) abort show ?thesis
      unfolding eq
      by (cases "is_GitCommandError x")
        (simp_all add: pull_recover_def recover_conflict_def bnd_def try_except_def reset_to_remote_def
          adapter_call_def logger_def ret_def)
  next
    case rb: (Inr u)
    show ?thesis
    proof (cases rc)
      case (Inl y)
      with rb assms(3,6,7) abort show ?thesis
        unfolding eq
        by (cases "is_GitCommandError y")
          (simp_all add: pull_recover_def recover_conflict_def bnd_def try_except_def reset_to_remote_def
            pull_origin_def adapter_call_def logger_def ret_def)
    next
      case (Inr v)
      with rb assms(3,6,7) abort show ?thesis
        unfolding eq
        by (simp add: pull_recover_def recover_conflict_def bnd_def try_except_def reset_to_remote_def
            pull_origin_def adapter_call_def logger_def ret_def)
    qed
  qed
qed

text \<open>
  Claim C7 as stated fails: when the hard reset fails, the recovery stops there. The
  only pull call is the first one; no pull is retried. And a conflict between a deletion
  and a modification, whose text does not contain ``merge conflict'', is handled as any
  other failure: no \<^verbatim>\<open>merge --abort\<close>, no retried pull, and the result is true.
\<close>

theorem pull_conflict_without_retry:
  "pull_try (mock_adapter (reset_fails merge_conflict)) cfg0 (pair0 world0) =
     (Inl (GitCommandError ''CONFLICT (content): Merge conflict in a.txt''),
      (pair0 world0)\<lparr>repo := world0\<lparr>w_pulls := 1\<rparr>,
        calls := [IsDirty, ActiveBranch, HeadIsValid, HeadCommit,
                  Pull ''origin'' ''main'' pull_options]\<rparr>) \<and>
   sublist ''merge conflict'' (lower ''CONFLICT (content): Merge conflict in a.txt'') \<and>
   calls (snd (pull_changes (mock_adapter (reset_fails merge_conflict)) cfg0 (pair0 world0))) =
     [IsDirty, ActiveBranch, HeadIsValid, HeadCommit, Pull ''origin'' ''main'' pull_options,
      MergeAbort, ResetHard ''origin/main''] \<and>
   fst (pull_changes (mock_adapter (reset_fails merge_conflict)) cfg0 (pair0 world0)) = Inr False \<and>
   calls (snd (pull_changes (mock_adapter modify_delete) cfg0 (pair0 world0))) =
     [IsDirty, ActiveBranch, HeadIsValid, HeadCommit, Pull ''origin'' ''main'' pull_options,
      ResetHard ''origin/main''] \<and>
   fst (pull_changes (mock_adapter modify_delete) cfg0 (pair0 world0)) = Inr True"
  by (simp add: run_defs prog_defs mock_defs merge_conflict_def reset_fails_def conflict_class
      modify_delete_def modify_delete_class)

text \<open>The amended statement at a conflict whose recovery succeeds.\<close>

theorem pull_merge_conflict_recovery_witness:
  "calls (snd (pull_changes (mock_adapter merge_conflict) cfg0 (pair0 world0))) =
     [IsDirty, ActiveBranch, HeadIsValid, HeadCommit, Pull ''origin'' ''main'' pull_options,
      MergeAbort, ResetHard ''origin/main'', Pull ''origin'' ''main'' pull_options] \<and>
   fst (pull_changes (mock_adapter merge_conflict) cfg0 (pair0 world0)) = Inr True \<and>
   last (logs (snd (pull_changes (mock_adapter merge_conflict) cfg0 (pair0 world0)))) =
     (INFO, ''Successfully resolved conflicts for docs'')"
proof -
  let ?ad = "mock_adapter merge_conflict"
  let ?e = "GitCommandError ''CONFLICT (content): Merge conflict in a.txt''"
  let ?w1 = "world0\<lparr>w_pulls := 1\<rparr>"
  let ?s1 = "(pair0 world0)\<lparr>repo := ?w1,
        calls := [IsDirty, ActiveBranch, HeadIsValid, HeadCommit,
                  Pull ''origin'' ''main'' pull_options]\<rparr>"
  have 1: "pull_try ?ad cfg0 (pair0 world0) = (Inl ?e, ?s1)"
    by (simp add: run_defs prog_defs mock_defs merge_conflict_def)
  have 2: "is_GitCommandError ?e" by simp
  have 3: "sublist ''merge conflict'' (str_lower ?ad (str ?e))"
    by (simp add: str_lower_mock conflict_class)
  have 4: "git_merge_abort ?ad (repo ?s1) = (Inr (), ?w1)"
    by (simp add: mock_defs merge_conflict_def)
  have 5: "case (Inr ()::exn + unit) of Inl x \<Rightarrow> is_GitCommandError x | Inr u \<Rightarrow> True" by simp
  have 6: "git_reset_hard ?ad (''origin/'' @ branch cfg0) ?w1 = (Inr (), ?w1)"
    by (simp add: mock_defs merge_conflict_def)
  have 7: "git_pull ?ad ''origin'' (branch cfg0) pull_options ?w1 = (Inr (), world0\<lparr>w_pulls := 2\<rparr>)"
    by (simp add: mock_defs merge_conflict_def)
  from pull_merge_conflict_recovery[OF 1 2 3 4 5 6 7] show ?thesis
    by (simp add: cfg0_def)
qed

section \<open>The commit in front of the pull\<close>

lemma calls_within_ret: "calls_within A (ret v)"
  by (simp add: calls_within_def ret_def)

lemma calls_within_logger: "calls_within A (logger lv msg)"
  by (simp add: calls_within_def logger_def)

lemma calls_within_adapter_call: "c \<in> A \<Longrightarrow> calls_within A (adapter_call c f)"
  by (simp add: calls_within_def adapter_call_def split: prod.splits)

lemma calls_within_bnd:
  assumes "calls_within A m" and "\<And>v. calls_within A (f v)"
  shows "calls_within A (bnd m f)"
proof -
  have "\<exists>cs. calls (snd (bnd m f s)) = calls s @ cs \<and> set cs \<subseteq> A" for s
  proof (cases "m s")
    case (Pair r s1)
    from assms(1) obtain cs1 where 1: "calls (snd (m s)) = calls s @ cs1" "set cs1 \<subseteq> A"
      unfolding calls_within_def by blast
    show ?thesis
    proof (cases r)
      case (Inl e)
      with Pair 1 show ?thesis by (simp add: bnd_def)
    next
      case (Inr v)
      from assms(2)[of v] obtain cs2 where 2: "calls (snd (f v s1)) = calls s1 @ cs2" "set cs2 \<subseteq> A"
        unfolding calls_within_def by blast
      from Pair Inr 1 2 have "calls (snd (bnd m f s)) = calls s @ (cs1 @ cs2) \<and> set (cs1 @ cs2) \<subseteq> A"
        by (simp add: bnd_def)
      then show ?thesis by blast
    qed
  qed
  then show ?thesis by (simp add: calls_within_def)
qed

lemma calls_within_try_except:
  assumes "calls_within A m" and "\<And>e. calls_within A (h e)"
  shows "calls_within A (try_except m catches h)"
proof -
  have "\<exists>cs. calls (snd (try_except m catches h s)) = calls s @ cs \<and> set cs \<subseteq> A" for s
  proof (cases "m s")
    case (Pair r s1)
    from assms(1) obtain cs1 where 1: "calls (snd (m s)) = calls s @ cs1" "set cs1 \<subseteq> A"
      unfolding calls_within_def by blast
    show ?thesis
    proof (cases r)
      case (Inr v)
      with Pair 1 show ?thesis by (simp add: try_except_def)
    next
      case (Inl e)
      from assms(2)[of e] obtain cs2 where 2: "calls (snd (h e s1)) = calls s1 @ cs2" "set cs2 \<subseteq> A"
        unfolding calls_within_def by blast
      from Pair Inl 1 2
      have "calls (snd (try_except m catches h s)) = calls s @ (cs1 @ cs2) \<and> set (cs1 @ cs2) \<subseteq> A
            \<or> calls (snd (try_except m catches h s)) = calls s @ cs1 \<and> set cs1 \<subseteq> A"
        by (simp add: try_except_def)
      then show ?thesis by blast
    qed
  qed
  then show ?thesis by (simp add: calls_within_def)
qed

lemma calls_within_if:
  "calls_within A m \<Longrightarrow> calls_within A n \<Longrightarrow> calls_within A (if b then m else n)"
  by simp

lemmas calls_within_intros = calls_within_bnd calls_within_try_except calls_within_if
  calls_within_ret calls_within_logger calls_within_adapter_call

lemma calls_withinD:
  assumes "calls_within A m"
  obtains cs where "calls (snd (m s)) = calls s @ cs" and "set cs \<subseteq> A"
  using assms unfolding calls_within_def by blast

lemma pull_branch_calls:
  "calls_within {ActiveBranch, Checkout (branch cfg), HeadIsValid, HeadCommit,
                 Pull ''origin'' (branch cfg) pull_options} (pull_branch ad cfg)"
  unfolding pull_branch_def head_hexsha_def pull_origin_def
  by (intro calls_within_intros) simp_all

lemma pull_recover_calls:
  "calls_within {MergeAbort, ResetHard (''origin/'' @ branch cfg),
                 Pull ''origin'' (branch cfg) pull_options, IndexAdd ''*'',
                 IndexCommit ''Add untracked files''} (pull_recover ad cfg e)"
  unfolding pull_recover_def recover_conflict_def recover_untracked_def recover_other_def
      reset_to_remote_def pull_origin_def
  by (intro calls_within_intros) simp_all

lemma pull_recover_calls_unstaged:
  assumes "sublist ''merge conflict'' (str_lower ad (str e)) \<or>
           \<not> sublist ''untracked working tree files'' (str_lower ad (str e))"
  shows "calls_within {MergeAbort, ResetHard (''origin/'' @ branch cfg),
                       Pull ''origin'' (branch cfg) pull_options} (pull_recover ad cfg e)"
proof (cases "sublist ''merge conflict'' (str_lower ad (str e))")
  case True
  then show ?thesis
    unfolding pull_recover_def recover_conflict_def recover_untracked_def recover_other_def
      reset_to_remote_def pull_origin_def
    by (simp only: if_True) (intro calls_within_intros; simp)
next
  case False
  with assms have "\<not> sublist ''untracked working tree files'' (str_lower ad (str e))" by simp
  with False show ?thesis
    unfolding pull_recover_def recover_conflict_def recover_untracked_def recover_other_def
      reset_to_remote_def pull_origin_def
    by (simp only: if_False) (intro calls_within_intros; simp)
qed

lemma pull_try_clean:
  assumes "is_dirty ad (repo s) = (Inr False, r1)"
  shows "pull_try ad cfg s = pull_branch ad cfg (s\<lparr>repo := r1, calls := calls s @ [IsDirty]\<rparr>)"
  using assms by (simp add: pull_try_def bnd_def adapter_call_def ret_def)

text \<open>
  Claim C10. When the dirtiness check of line 467 answers false, as it does when the
  only local changes are untracked files (\<^verbatim>\<open>is_dirty()\<close> leaves them out),
  \<^verbatim>\<open>_pull_changes\<close> goes from the check straight to the branch check and the pull:
  \<^verbatim>\<open>_commit_and_push\<close> is not invoked. No call of \<^verbatim>\<open>_pull_changes\<close> pushes or
  compares the index with HEAD, and files are staged only in the recovery from an
  untracked-file collision (a caught \<open>GitCommandError\<close> whose lower-cased text contains
  ``untracked working tree files'' and not ``merge conflict''), which commits them
  locally. So they reach the remote only
  through that recovery or through the \<^verbatim>\<open>_commit_and_push\<close> that \<^verbatim>\<open>sync\<close> runs after
  the pull, and it is the latter that pushes.
\<close>

theorem pull_clean_tree_skips_commit_and_push:
  assumes "is_dirty ad (repo s) = (Inr False, r1)"
  shows "pull_try ad cfg s =
           pull_branch ad cfg (s\<lparr>repo := r1, calls := calls s @ [IsDirty]\<rparr>) \<and>
         set (new_calls (pull_changes ad cfg) s) \<subseteq>
           {IsDirty, ActiveBranch, Checkout (branch cfg), HeadIsValid, HeadCommit,
            Pull ''origin'' (branch cfg) pull_options, MergeAbort,
            ResetHard (''origin/'' @ branch cfg), IndexAdd ''*'',
            IndexCommit ''Add untracked files''} \<and>
         Push (branch cfg) \<notin> set (new_calls (pull_changes ad cfg) s) \<and>
         IndexDiff ''HEAD'' \<notin> set (new_calls (pull_changes ad cfg) s) \<and>
         (IndexAdd ''*'' \<in> set (new_calls (pull_changes ad cfg) s) \<longrightarrow>
            (\<exists>e s1. pull_try ad cfg s = (Inl e, s1) \<and> is_GitCommandError e \<and>
                    \<not> sublist ''merge conflict'' (str_lower ad (str e)) \<and>
                    sublist ''untracked working tree files'' (str_lower ad (str e))))"
proof -
  let ?B = "{ActiveBranch, Checkout (branch cfg), HeadIsValid, HeadCommit,
             Pull ''origin'' (branch cfg) pull_options}"
  let ?R = "{MergeAbort, ResetHard (''origin/'' @ branch cfg),
             Pull ''origin'' (branch cfg) pull_options}"
  let ?s0 = "s\<lparr>repo := r1, calls := calls s @ [IsDirty]\<rparr>"
  obtain r s1 where t: "pull_try ad cfg s = (r, s1)" by (cases "pull_try ad cfg s")
  from pull_branch_calls[of cfg ad] obtain cs1
    where "calls (snd (pull_branch ad cfg ?s0)) = calls ?s0 @ cs1" and cs1: "set cs1 \<subseteq> ?B"
    by (rule calls_withinD)
  with t have c1: "calls s1 = calls s @ IsDirty # cs1"
    by (simp add: pull_try_clean[OF assms])
  show ?thesis
  proof (cases "\<exists>e. r = Inl e \<and> is_GitCommandError e")
    case False
    then have "case r of Inl e \<Rightarrow> \<not> is_GitCommandError e | Inr v \<Rightarrow> True"
      by (cases r) auto
    with t have "pull_changes ad cfg s = (r, s1)" by (rule pull_changes_unhandled)
    with c1 have n: "new_calls (pull_changes ad cfg) s = IsDirty # cs1"
      by (simp add: new_calls_def)
    from cs1 pull_try_clean[OF assms, of cfg] show ?thesis unfolding n by auto
  next
    case True
    then obtain e where e: "r = Inl e" "is_GitCommandError e" by blast
    let ?s1 = "s1\<lparr>logs := logs s1 @ [(WARNING, ''Pull failed for '' @ name cfg @ '': '' @ str e)]\<rparr>"
    from t e have eq: "pull_changes ad cfg s = pull_recover ad cfg e ?s1"
      by (simp add: pull_changes_handled)
    from pull_recover_calls[of cfg ad e] obtain cs2
      where c2: "calls (snd (pull_recover ad cfg e ?s1)) = calls ?s1 @ cs2"
        and cs2: "set cs2 \<subseteq> {MergeAbort, ResetHard (''origin/'' @ branch cfg),
                 Pull ''origin'' (branch cfg) pull_options, IndexAdd ''*'',
                 IndexCommit ''Add untracked files''}"
      by (rule calls_withinD)
    from c1 c2 have n: "new_calls (pull_changes ad cfg) s = IsDirty # cs1 @ cs2"
      by (simp add: new_calls_def eq)
    have staged: "\<not> sublist ''merge conflict'' (str_lower ad (str e)) \<and>
                  sublist ''untracked working tree files'' (str_lower ad (str e))"
      if "IndexAdd ''*'' \<in> set cs2"
    proof (rule ccontr)
      assume "\<not> ?thesis"
      then have "sublist ''merge conflict'' (str_lower ad (str e)) \<or>
                 \<not> sublist ''untracked working tree files'' (str_lower ad (str e))" by blast
      from pull_recover_calls_unstaged[OF this, of cfg] obtain cs3
        where "calls (snd (pull_recover ad cfg e ?s1)) = calls ?s1 @ cs3" and "set cs3 \<subseteq> ?R"
        by (rule calls_withinD)
      with c2 that show False by auto
    qed
    from cs1 have "IndexAdd ''*'' \<notin> set cs1" by auto
    with staged t e have 4: "IndexAdd ''*'' \<in> set (IsDirty # cs1 @ cs2) \<longrightarrow>
        (\<exists>e s1. pull_try ad cfg s = (Inl e, s1) \<and> is_GitCommandError e \<and>
                \<not> sublist ''merge conflict'' (str_lower ad (str e)) \<and>
                sublist ''untracked working tree files'' (str_lower ad (str e)))"
      by auto
    from cs1 cs2 have 1: "set (IsDirty # cs1 @ cs2) \<subseteq>
           {IsDirty, ActiveBranch, Checkout (branch cfg), HeadIsValid, HeadCommit,
            Pull ''origin'' (branch cfg) pull_options, MergeAbort,
            ResetHard (''origin/'' @ branch cfg), IndexAdd ''*'',
            IndexCommit ''Add untracked files''}"
      by auto
    from 1 have 2: "Push (branch cfg) \<notin> set (IsDirty # cs1 @ cs2)"
      and 3: "IndexDiff ''HEAD'' \<notin> set (IsDirty # cs1 @ cs2)"
      by auto
    from 1 2 3 4 pull_try_clean[OF assms, of cfg] show ?thesis unfolding n by blast
  qed
qed

text \<open>
  A working tree whose only change is the new file \<^verbatim>\<open>a.txt\<close>; and, for contrast, one
  where \<^verbatim>\<open>a.txt\<close> is a modified tracked file, which is committed before the pull.
\<close>

theorem pull_clean_tree_skips_commit_and_push_witness:
  "is_dirty (mock_adapter quiet) (repo (pair0 drafted)) = (Inr False, drafted) \<and>
   w_untracked drafted = [''a.txt''] \<and>
   new_calls (pull_changes (mock_adapter quiet) cfg0) (pair0 drafted) =
     [IsDirty, ActiveBranch, HeadIsValid, HeadCommit, Pull ''origin'' ''main'' pull_options,
      HeadIsValid, HeadCommit] \<and>
   Push (branch cfg0) \<notin> set (new_calls (pull_changes (mock_adapter quiet) cfg0) (pair0 drafted)) \<and>
   IndexDiff ''HEAD'' \<notin> set (new_calls (pull_changes (mock_adapter quiet) cfg0) (pair0 drafted)) \<and>
   take 4 (new_calls (pull_changes (mock_adapter quiet) cfg0) (pair0 edited)) =
     [IsDirty, IndexAdd ''*'', IndexDiff ''HEAD'', IndexCommit ''Sync: 2026-01-01 00:00:00'']"
proof -
  have h: "is_dirty (mock_adapter quiet) (repo (pair0 drafted)) = (Inr False, drafted)"
    by (simp add: mock_defs drafted_def)
  have c: "new_calls (pull_changes (mock_adapter quiet) cfg0) (pair0 drafted) =
     [IsDirty, ActiveBranch, HeadIsValid, HeadCommit, Pull ''origin'' ''main'' pull_options,
      HeadIsValid, HeadCommit]"
    by (simp add: new_calls_def run_defs prog_defs mock_defs drafted_def)
  have e: "take 4 (new_calls (pull_changes (mock_adapter quiet) cfg0) (pair0 edited)) =
     [IsDirty, IndexAdd ''*'', IndexDiff ''HEAD'', IndexCommit ''Sync: 2026-01-01 00:00:00'']"
    by (simp add: new_calls_def run_defs prog_defs mock_defs edited_def)
  from pull_clean_tree_skips_commit_and_push[OF h, of cfg0] h c e show ?thesis
    by (simp add: drafted_def world0_def)
qed
section \<open>The lock of \<^verbatim>\<open>sync\<close>\<close>

lemma sync_guarded_lock: "sync_lock (snd (sync_guarded ad cfg t s)) = sync_lock s"
  using sync_cycle_cases[of ad cfg t s]
  by (cases "elapsed_less (t - last_sync_time s) (autocommit_time cfg)")
    (simp_all add: sync_guarded_def bnd_def ret_def)

lemma in_flight_parts:
  "\<not> in_flight (sync_thread ad cfg t)" "in_flight (try_thread ad cfg t)"
  "in_flight (release_thread res)"
  by (simp_all add: sync_thread_def try_thread_def release_thread_def)

lemma part_cases:
  assumes "th = Atomic l f" and "f s = (s', rest)"
    and "(\<exists>res. th = Return res) \<or> (\<exists>t. th = sync_thread ad cfg t) \<or>
         (\<exists>t. th = try_thread ad cfg t) \<or> (\<exists>res. th = release_thread res)"
  shows "case l of
           Acquire \<Rightarrow>
             if sync_lock s then s' = s \<and> rest = Return (Inr ())
             else s' = s\<lparr>sync_lock := True\<rparr> \<and> (\<exists>t. rest = try_thread ad cfg t)
         | Try \<Rightarrow> \<exists>t res. sync_guarded ad cfg t s = (res, s') \<and> rest = release_thread res
         | Release \<Rightarrow> s' = s\<lparr>sync_lock := False\<rparr> \<and> (\<exists>res. rest = Return res)"
proof -
  from assms(1,3) consider
      (acq) t where "th = sync_thread ad cfg t"
    | (body) t where "th = try_thread ad cfg t"
    | (rel) res where "th = release_thread res"
    by auto
  then show ?thesis
  proof cases
    case acq
    with assms(1,2) show ?thesis
      by (auto simp: sync_thread_def acquire_nonblocking_def split: if_splits)
  next
    case body
    with assms(1) have l: "l = Try"
      and f: "f = (\<lambda>s. case sync_guarded ad cfg t s of (res, s') \<Rightarrow> (s', release_thread res))"
      by (simp_all add: try_thread_def)
    obtain res s'' where g: "sync_guarded ad cfg t s = (res, s'')"
      by (cases "sync_guarded ad cfg t s")
    with assms(2) f have "s' = s''" and "rest = release_thread res" by simp_all
    with g have "\<exists>t res. sync_guarded ad cfg t s = (res, s') \<and> rest = release_thread res"
      by blast
    with l show ?thesis by simp
  next
    case rel
    with assms(1,2) show ?thesis
      by (auto simp: release_thread_def release_def)
  qed
qed

lemma reachable_invariant:
  assumes "reachable ad cfg s0 c"
  shows "(\<forall>i. (\<exists>res. snd c i = Return res) \<or> (\<exists>t. snd c i = sync_thread ad cfg t) \<or>
              (\<exists>t. snd c i = try_thread ad cfg t) \<or> (\<exists>res. snd c i = release_thread res)) \<and>
         (\<forall>i j. in_flight (snd c i) \<and> in_flight (snd c j) \<longrightarrow> i = j) \<and>
         (sync_lock (fst c) \<longleftrightarrow> (\<exists>i. in_flight (snd c i)))"
  using assms
proof (induction rule: reachable.induct)
  case start
  then show ?case by simp
next
  case (after c c')
  from after.hyps(2) show ?case
  proof (cases rule: step.cases)
    case (call ctx i res s current_time)
    with after.IH have wf: "\<forall>k. (\<exists>res. ctx k = Return res) \<or> (\<exists>t. ctx k = sync_thread ad cfg t) \<or>
              (\<exists>t. ctx k = try_thread ad cfg t) \<or> (\<exists>res. ctx k = release_thread res)"
      and ex: "\<forall>k j. in_flight (ctx k) \<and> in_flight (ctx j) \<longrightarrow> k = j"
      and lk: "sync_lock s \<longleftrightarrow> (\<exists>k. in_flight (ctx k))"
      by simp_all
    have fl: "in_flight ((ctx(i := sync_thread ad cfg current_time)) k) = in_flight (ctx k)" for k
      using call(3) by (simp add: in_flight_parts)
    from wf have "\<forall>k. (\<exists>res. (ctx(i := sync_thread ad cfg current_time)) k = Return res) \<or>
              (\<exists>t. (ctx(i := sync_thread ad cfg current_time)) k = sync_thread ad cfg t) \<or>
              (\<exists>t. (ctx(i := sync_thread ad cfg current_time)) k = try_thread ad cfg t) \<or>
              (\<exists>res. (ctx(i := sync_thread ad cfg current_time)) k = release_thread res)"
      by auto
    with ex lk show ?thesis unfolding call(2) by (simp only: fst_conv snd_conv fl) blast
  next
    case (part ctx i l f s s' rest)
    with after.IH have wf: "\<forall>k. (\<exists>res. ctx k = Return res) \<or> (\<exists>t. ctx k = sync_thread ad cfg t) \<or>
              (\<exists>t. ctx k = try_thread ad cfg t) \<or> (\<exists>res. ctx k = release_thread res)"
      and ex: "\<forall>k j. in_flight (ctx k) \<and> in_flight (ctx j) \<longrightarrow> k = j"
      and lk: "sync_lock s \<longleftrightarrow> (\<exists>k. in_flight (ctx k))"
      by simp_all
    note pc = part_cases[OF part(3,4) wf[rule_format, of i]]
    show ?thesis
    proof (cases l)
      case Acquire
      with part(3) have ni: "\<not> in_flight (ctx i)" by simp
      show ?thesis
      proof (cases "sync_lock s")
        case True
        with pc Acquire have s': "s' = s" and rest: "rest = Return (Inr ())" by simp_all
        have fl: "in_flight ((ctx(i := rest)) k) = in_flight (ctx k)" for k
          using ni rest by simp
        from wf rest have "\<forall>k. (\<exists>res. (ctx(i := rest)) k = Return res) \<or>
              (\<exists>t. (ctx(i := rest)) k = sync_thread ad cfg t) \<or>
              (\<exists>t. (ctx(i := rest)) k = try_thread ad cfg t) \<or>
              (\<exists>res. (ctx(i := rest)) k = release_thread res)"
          by auto
        with ex lk show ?thesis unfolding part(2) s' by (simp only: fst_conv snd_conv fl) blast
      next
        case False
        with pc Acquire obtain t where s': "s' = s\<lparr>sync_lock := True\<rparr>"
          and rest: "rest = try_thread ad cfg t" by auto
        from False lk have none: "\<And>k. \<not> in_flight (ctx k)" by simp
        have fl: "in_flight ((ctx(i := rest)) k) \<longleftrightarrow> k = i" for k
          using none[of k] rest by (simp add: in_flight_parts)
        from wf rest have "\<forall>k. (\<exists>res. (ctx(i := rest)) k = Return res) \<or>
              (\<exists>t. (ctx(i := rest)) k = sync_thread ad cfg t) \<or>
              (\<exists>t. (ctx(i := rest)) k = try_thread ad cfg t) \<or>
              (\<exists>res. (ctx(i := rest)) k = release_thread res)"
          by auto
        then show ?thesis unfolding part(2) s' by (simp only: fst_conv snd_conv fl) simp
      qed
    next
      case Try
      with part(3) have yi: "in_flight (ctx i)" by simp
      from pc Try obtain t res where g: "sync_guarded ad cfg t s = (res, s')"
        and rest: "rest = release_thread res" by auto
      from g sync_guarded_lock[of ad cfg t s] have s': "sync_lock s' = sync_lock s" by simp
      have fl: "in_flight ((ctx(i := rest)) k) = in_flight (ctx k)" for k
        using yi rest by (simp add: in_flight_parts)
      from wf rest have "\<forall>k. (\<exists>res. (ctx(i := rest)) k = Return res) \<or>
              (\<exists>t. (ctx(i := rest)) k = sync_thread ad cfg t) \<or>
              (\<exists>t. (ctx(i := rest)) k = try_thread ad cfg t) \<or>
              (\<exists>res. (ctx(i := rest)) k = release_thread res)"
        by auto
      with ex lk show ?thesis unfolding part(2) by (simp only: fst_conv snd_conv fl s') blast
    next
      case Release
      with part(3) have yi: "in_flight (ctx i)" by simp
      from pc Release obtain res where s': "s' = s\<lparr>sync_lock := False\<rparr>"
        and rest: "rest = Return res" by auto
      from yi ex have only: "\<And>k. in_flight (ctx k) \<Longrightarrow> k = i" by blast
      have fl: "\<not> in_flight ((ctx(i := rest)) k)" for k
        using only[of k] rest by auto
      from wf rest have "\<forall>k. (\<exists>res. (ctx(i := rest)) k = Return res) \<or>
              (\<exists>t. (ctx(i := rest)) k = sync_thread ad cfg t) \<or>
              (\<exists>t. (ctx(i := rest)) k = try_thread ad cfg t) \<or>
              (\<exists>res. (ctx(i := rest)) k = release_thread res)"
        by auto
      then show ?thesis unfolding part(2) s' by (simp only: fst_conv snd_conv fl) simp
    qed
  qed
qed


text \<open>
  Claim C6. \<^verbatim>\<open>sync\<close> is the early return on a lock that is taken, followed by
  \<^verbatim>\<open>try ... finally: release\<close>; its three parts (the non-blocking acquire, the body,
  the release) are what the contexts interleave. In every state that interleaved
  \<^verbatim>\<open>sync\<close> calls of any number of contexts can reach, at most one call is between its
  successful acquire and its release, and the lock is held exactly when there is one.
  There, a context whose next part is the acquire returns at once with the pair
  unchanged when the lock is held, and takes the lock otherwise; the body is always
  followed by the release, whatever the body returned or raised; the release frees the
  lock and ends the call. A whole call made while the lock is held returns with the
  pair unchanged and without adapter calls, and a whole call made on a free lock leaves
  it free, whichever way the cycle ended.
\<close>

theorem sync_lock_excludes:
  "(reachable ad cfg s0 (s, ctx) \<longrightarrow>
      (\<forall>i j. in_flight (ctx i) \<and> in_flight (ctx j) \<longrightarrow> i = j) \<and>
      (sync_lock s \<longleftrightarrow> (\<exists>i. in_flight (ctx i))) \<and>
      (\<forall>i l f s' rest. ctx i = Atomic l f \<and> f s = (s', rest) \<longrightarrow>
         (case l of
            Acquire \<Rightarrow>
              if sync_lock s then s' = s \<and> rest = Return (Inr ())
              else s' = s\<lparr>sync_lock := True\<rparr> \<and> (\<exists>t. rest = try_thread ad cfg t)
          | Try \<Rightarrow> \<exists>t res. sync_guarded ad cfg t s = (res, s') \<and> rest = release_thread res
          | Release \<Rightarrow> s' = s\<lparr>sync_lock := False\<rparr> \<and> (\<exists>res. rest = Return res)))) \<and>
   sync ad cfg current_time =
     bnd acquire_nonblocking (\<lambda>acquired.
     if \<not> acquired then ret ()
     else try_finally (sync_guarded ad cfg current_time) release) \<and>
   (sync_lock s1 \<longrightarrow>
      sync ad cfg current_time s1 = (Inr (), s1) \<and>
      new_calls (sync ad cfg current_time) s1 = []) \<and>
   (\<not> sync_lock s1 \<longrightarrow> \<not> sync_lock (snd (sync ad cfg current_time s1)))"
proof (intro conjI impI allI)
  assume r: "reachable ad cfg s0 (s, ctx)"
  from reachable_invariant[OF r]
  show "in_flight (ctx i) \<and> in_flight (ctx j) \<Longrightarrow> i = j" for i j
    by simp
  from reachable_invariant[OF r]
  show "sync_lock s \<longleftrightarrow> (\<exists>i. in_flight (ctx i))" by simp
  fix i l f s' rest
  assume a: "ctx i = Atomic l f \<and> f s = (s', rest)"
  from reachable_invariant[OF r]
  have wf: "(\<exists>res. ctx i = Return res) \<or> (\<exists>t. ctx i = sync_thread ad cfg t) \<or>
            (\<exists>t. ctx i = try_thread ad cfg t) \<or> (\<exists>res. ctx i = release_thread res)"
    by simp
  from a have 1: "ctx i = Atomic l f" and 2: "f s = (s', rest)" by simp_all
  show "case l of
            Acquire \<Rightarrow>
              if sync_lock s then s' = s \<and> rest = Return (Inr ())
              else s' = s\<lparr>sync_lock := True\<rparr> \<and> (\<exists>t. rest = try_thread ad cfg t)
          | Try \<Rightarrow> \<exists>t res. sync_guarded ad cfg t s = (res, s') \<and> rest = release_thread res
          | Release \<Rightarrow> s' = s\<lparr>sync_lock := False\<rparr> \<and> (\<exists>res. rest = Return res)"
    by (rule part_cases[OF 1 2 wf])
next
  show "sync ad cfg current_time =
     bnd acquire_nonblocking (\<lambda>acquired.
     if \<not> acquired then ret ()
     else try_finally (sync_guarded ad cfg current_time) release)"
    by (rule sync_monadic)
next
  assume "sync_lock s1"
  then show "sync ad cfg current_time s1 = (Inr (), s1)"
    and "new_calls (sync ad cfg current_time) s1 = []"
    by (simp_all add: sync_unfold new_calls_def)
next
  assume "\<not> sync_lock s1"
  then show "\<not> sync_lock (snd (sync ad cfg current_time s1))" by (rule sync_releases)
qed

text \<open>
  Context 0 has taken the lock at time 100 and is about to run the body; context 1 has
  called \<^verbatim>\<open>sync\<close> at time 105 and is at its acquire: its step returns at once and
  leaves the pair as it is.
\<close>

theorem sync_lock_excludes_witness:
  "reachable (mock_adapter quiet) cfg0 (pair0 world0)
     ((pair0 world0)\<lparr>sync_lock := True\<rparr>,
      (\<lambda>i::nat. Return (Inr ()))
        (0 := try_thread (mock_adapter quiet) cfg0 100,
         1 := sync_thread (mock_adapter quiet) cfg0 105)) \<and>
   in_flight (try_thread (mock_adapter quiet) cfg0 100 :: (world sync_pair, exn + unit) thread) \<and>
   \<not> in_flight (sync_thread (mock_adapter quiet) cfg0 105) \<and>
   (\<exists>i. in_flight
          (((\<lambda>i::nat. Return (Inr ()))
              (0 := try_thread (mock_adapter quiet) cfg0 100,
               1 := sync_thread (mock_adapter quiet) cfg0 105)) i)) \<and>
   sync (mock_adapter quiet) cfg0 105 ((pair0 world0)\<lparr>sync_lock := True\<rparr>) =
     (Inr (), (pair0 world0)\<lparr>sync_lock := True\<rparr>) \<and>
   new_calls (sync (mock_adapter quiet) cfg0 105) ((pair0 world0)\<lparr>sync_lock := True\<rparr>) = [] \<and>
   \<not> sync_lock (snd (sync (mock_adapter quiet) cfg0 100 (pair0 world0)))"
proof -
  let ?ad = "mock_adapter quiet"
  let ?s0 = "pair0 world0"
  let ?s1 = "?s0\<lparr>sync_lock := True\<rparr>"
  let ?c0 = "\<lambda>i::nat. (Return (Inr ()) :: (world sync_pair, exn + unit) thread)"
  let ?c1 = "?c0(0 := sync_thread ?ad cfg0 100)"
  let ?c2 = "?c0(0 := try_thread ?ad cfg0 100)"
  let ?c3 = "?c2(1 := sync_thread ?ad cfg0 105)"
  have f: "\<not> sync_lock ?s0" by (simp add: pair0_def)
  have l: "sync_lock ?s1" by simp
  from f have r0: "reachable ?ad cfg0 ?s0 (?s0, ?c0)" by (rule reachable.start)
  have "step ?ad cfg0 (?s0, ?c0) (?s0, ?c0(0 := sync_thread ?ad cfg0 100))"
    by (rule step.call[where res = "Inr ()"]) simp
  with r0 have r1: "reachable ?ad cfg0 ?s0 (?s0, ?c1)" by (rule reachable.after)
  have "step ?ad cfg0 (?s0, ?c1) (?s1, ?c1(0 := try_thread ?ad cfg0 100))"
    by (rule step.part[where l = Acquire
          and f = "\<lambda>s. case acquire_nonblocking s of
                     (Inl e, s') \<Rightarrow> (s', Return (Inl e))
                   | (Inr acquired, s') \<Rightarrow>
                       (s', if \<not> acquired then Return (Inr ()) else try_thread ?ad cfg0 100)"])
      (simp_all add: sync_thread_def acquire_nonblocking_def pair0_def)
  with r1 have "reachable ?ad cfg0 ?s0 (?s1, ?c1(0 := try_thread ?ad cfg0 100))"
    by (rule reachable.after)
  then have r2: "reachable ?ad cfg0 ?s0 (?s1, ?c2)" by simp
  have "step ?ad cfg0 (?s1, ?c2) (?s1, ?c2(1 := sync_thread ?ad cfg0 105))"
    by (rule step.call[where res = "Inr ()"]) simp
  with r2 have r3: "reachable ?ad cfg0 ?s0 (?s1, ?c3)" by (rule reachable.after)
  note th = sync_lock_excludes[of ?ad cfg0 ?s0 ?s1 ?c3]
  from th[of 105 ?s1] r3 l
  have held: "sync_lock ?s1 \<longleftrightarrow> (\<exists>i. in_flight (?c3 i))"
    and busy: "sync ?ad cfg0 105 ?s1 = (Inr (), ?s1)"
    and none: "new_calls (sync ?ad cfg0 105) ?s1 = []"
    by blast+
  from th[of 100 ?s0] f
  have free: "\<not> sync_lock (snd (sync ?ad cfg0 100 ?s0))" by blast
  have a: "in_flight (try_thread ?ad cfg0 100 :: (world sync_pair, exn + unit) thread)"
    and b: "\<not> in_flight (sync_thread ?ad cfg0 105)"
    by (simp_all add: in_flight_parts)
  from held l have ex: "\<exists>i. in_flight (?c3 i)" by blast
  from r3 a b ex busy none free show ?thesis by blast
qed
section \<open>The repair of HEAD at initialization\<close>

lemmas init_defs = SyncPair_init_def initialize_git_def repair_head_def
  ensure_valid_repository_def fix_head_def checkout_branch_def make_attrs_def
  resolve_token_def remote_url_def git_folder_def

lemma resolve_token_config0:
  "resolve_token getenv0 (cfg_github_token config0) = Inr ''t0ken''"
  by (simp add: resolve_token_def config0_def getenv0_def suffix_to_prefix)

text \<open>
  Claim C8 against the code. Both handlers for a HEAD that does not resolve (lines 394
  to 423 of \<^verbatim>\<open>_initialize_git\<close>, lines 314 to 333 of \<^verbatim>\<open>_ensure_valid_repository\<close>)
  begin with \<^verbatim>\<open>list(self.repo.iter_commits())\<close>. When that call raises, as GitPython's
  \<^verbatim>\<open>iter_commits()\<close> does on a HEAD that does not resolve, the exception is raised inside
  the handler and leaves the method: the adapter calls made are the read of HEAD and the
  listing, nothing is committed or reset, no branch is checked out, and the only log
  line is the one that announces the repair.
\<close>

theorem head_repair_raises:
  assumes "head_commit ad (repo s) = (Inl e, r0)" and "is_ValueError e"
    and "iter_commits ad r0 = (Inl e', r1)"
  shows "repair_head ad cfg s =
           (Inl e',
            s\<lparr>repo := r1, calls := calls s @ [HeadCommit, IterCommits],
              logs := logs s @ [(INFO, ''Repository exists but has no valid HEAD, fixing...'')]\<rparr>) \<and>
         ensure_valid_repository ad cfg s =
           (Inl e',
            s\<lparr>repo := r1, calls := calls s @ [HeadCommit, IterCommits],
              logs := logs s @
                [(WARNING, ''Invalid HEAD in '' @ name cfg @ '', attempting to fix...'')]\<rparr>)"
  using assms
  by (simp add: repair_head_def fix_head_def ensure_valid_repository_def try_except_def
      bnd_def adapter_call_def logger_def)

text \<open>
  A repository with zero commits, as \<^verbatim>\<open>git init\<close> leaves it: \<^verbatim>\<open>SyncPair.__init__\<close>
  raises the \<^verbatim>\<open>ValueError\<close> of the commit listing from \<^verbatim>\<open>_initialize_git\<close>. No commit
  is created and no branch is checked out.
\<close>

theorem head_repair_raises_witness:
  "head_commit (mock_adapter quiet) (repo (pair0 unborn)) =
     (Inl (ValueError ''Reference at HEAD does not exist''), unborn) \<and>
   is_ValueError (ValueError ''Reference at HEAD does not exist'') \<and>
   iter_commits (mock_adapter quiet) unborn =
     (Inl (ValueError ''Reference at HEAD does not exist''), unborn) \<and>
   repair_head (mock_adapter quiet) cfg0 (pair0 unborn) =
     (Inl (ValueError ''Reference at HEAD does not exist''),
      (pair0 unborn)\<lparr>calls := [HeadCommit, IterCommits],
        logs := [(INFO, ''Repository exists but has no valid HEAD, fixing...'')]\<rparr>) \<and>
   SyncPair_init (mock_adapter quiet) getenv0 config0 unborn =
     (Inl (ValueError ''Reference at HEAD does not exist''),
      \<lparr>repo = unborn, last_sync_time = 0, sync_lock = False,
       calls = [Mkdir ''/data/docs'', GitDirExists ''/data/docs/.git'', RepoOpen ''/data/docs'',
                HasRemote ''origin'', SetUrl ''https://t0ken@github.com/user/docs.git'',
                HeadCommit, IterCommits],
       logs = [(INFO, ''Git repository already exists in /data/docs''),
               (INFO, ''Repository exists but has no valid HEAD, fixing...'')]\<rparr>)"
proof -
  let ?e = "ValueError ''Reference at HEAD does not exist''"
  have h: "head_commit (mock_adapter quiet) (repo (pair0 unborn)) = (Inl ?e, unborn)"
    by (simp add: mock_defs unborn_def)
  have v: "is_ValueError ?e" by simp
  have i: "iter_commits (mock_adapter quiet) unborn = (Inl ?e, unborn)"
    by (simp add: mock_defs unborn_def)
  from head_repair_raises[OF h v i, of cfg0]
  have r: "repair_head (mock_adapter quiet) cfg0 (pair0 unborn) =
     (Inl ?e, (pair0 unborn)\<lparr>calls := [HeadCommit, IterCommits],
        logs := [(INFO, ''Repository exists but has no valid HEAD, fixing...'')]\<rparr>)"
    by (simp add: pair0_def)
  have n: "SyncPair_init (mock_adapter quiet) getenv0 config0 unborn =
     (Inl ?e,
      \<lparr>repo = unborn, last_sync_time = 0, sync_lock = False,
       calls = [Mkdir ''/data/docs'', GitDirExists ''/data/docs/.git'', RepoOpen ''/data/docs'',
                HasRemote ''origin'', SetUrl ''https://t0ken@github.com/user/docs.git'',
                HeadCommit, IterCommits],
       logs = [(INFO, ''Git repository already exists in /data/docs''),
               (INFO, ''Repository exists but has no valid HEAD, fixing...'')]\<rparr>)"
    by (simp add: SyncPair_init_def resolve_token_config0)
      (simp add: initialize_git_def repair_head_def ensure_valid_repository_def fix_head_def
        checkout_branch_def make_attrs_def remote_url_def git_folder_def prog_defs mock_defs
        config0_def unborn_def)
  from h v i r n show ?thesis by simp
qed

text \<open>
  The same on a folder without a repository: after \<^verbatim>\<open>Repo.init\<close> the folder holds
  \<^verbatim>\<open>.git\<close>, so the files are staged and \<^verbatim>\<open>index.diff('HEAD')\<close> is asked of a repository
  without commits; its \<^verbatim>\<open>BadName\<close> leaves \<^verbatim>\<open>__init__\<close>.
\<close>

lemma init_fresh_folder_raises:
  "fst (SyncPair_init (mock_adapter quiet) getenv0 config0 fresh) =
     Inl (BadName ''Ref HEAD did not resolve to an object'') \<and>
   calls (snd (SyncPair_init (mock_adapter quiet) getenv0 config0 fresh)) =
     [Mkdir ''/data/docs'', GitDirExists ''/data/docs/.git'', RepoInit ''/data/docs'',
      CreateRemote ''origin'' ''https://t0ken@github.com/user/docs.git'',
      FolderNonEmpty ''/data/docs'', IndexAdd ''*'', IndexDiff ''HEAD'']"
  by (simp add: SyncPair_init_def resolve_token_config0)
    (simp add: initialize_git_def repair_head_def ensure_valid_repository_def fix_head_def
      checkout_branch_def make_attrs_def remote_url_def git_folder_def prog_defs mock_defs
      config0_def unborn_def fresh_def)

end
